theory Spec2Isabelle
  imports Complex_Main
begin

section \<open>The UTXO deposit monitor (UTXODeposits.ts)\<close>

text \<open>
  One \<open>UTXODeposits\<close> instance watches one address of one wallet. Its fields are the
  record \<open>monitor\<close>; the constructor arguments are the record \<open>config\<close>.
  \<open>satoshiToStandardUnit\<close> (utils/blockchain) is not among the sources, so the unit
  conversion is a field of \<open>config\<close>.
\<close>

record config =
  wallet_id :: string
  chain :: string
  address :: string
  satoshiToStandardUnit :: "nat \<Rightarrow> rat"

text \<open>
  The \<open>confirmations\<close> entries of \<open>chainConfigs\<close> (utils/chains): only the four UTXO
  chains have one.
\<close>

definition chainConfirmations :: "string \<Rightarrow> nat option" where
  "chainConfirmations c =
     (if c = ''BTC'' then Some 3
      else if c = ''LTC'' \<or> c = ''DOGE'' \<or> c = ''DASH'' then Some 6
      else None)"

record monitor =
  active :: bool
  intervalId :: "nat option"
  consecutiveErrors :: nat
  processedTxHashes :: "string set"
  lastBroadcastedConfirmations :: "string \<Rightarrow> int option"

definition MAX_CONSECUTIVE_ERRORS :: nat where
  "MAX_CONSECUTIVE_ERRORS = 5"

definition POLLING_INTERVAL :: nat where
  "POLLING_INTERVAL = 30000"

text \<open>The state of a freshly constructed monitor (the field initialisers of the class).\<close>

definition newMonitor :: monitor where
  "newMonitor = \<lparr> active = True, intervalId = None, consecutiveErrors = 0,
     processedTxHashes = {}, lastBroadcastedConfirmations = (\<lambda>_. None) \<rparr>"

subsection \<open>What a poll cycle sees\<close>

text \<open>
  An entry of the list returned by \<open>fetchUTXOTransactions\<close>; \<open>confirmations\<close> and
  \<open>value\<close> may be missing (the code reads them as \<open>tx.confirmations || 0\<close>).
\<close>

record utxo_tx =
  tx_hash :: string
  tx_confirmations :: "int option"
  tx_value :: "nat option"

record tx_output =
  out_value :: "nat option"
  out_addresses :: "string list option"

text \<open>
  The full transaction returned by \<open>fetchUtxoTransaction\<close>. Only the outputs enter the
  credited amount; the inputs are copied into the stored details (the \<open>from\<close> field)
  and are left out here.
\<close>

record full_tx =
  outputs :: "tx_output list option"

datatype 'a outcome = Returns 'a | Throws

text \<open>
  The monitor awaits three collaborators for each transaction: the lookup
  \<open>models.transaction.findOne\<close>, \<open>fetchUtxoTransaction\<close> and
  \<open>storeAndBroadcastTransaction\<close>. Whether each of them rejects is decided outside the
  monitor, so an observation carries the transaction together with these outcomes.
\<close>

record observation =
  obs_tx :: utxo_tx
  findOne_rejects :: bool
  fetched_fullTx :: "full_tx option outcome"
  store_rejects :: bool

text \<open>The result of \<open>fetchUTXOTransactions\<close> in one cycle: a rejection, or a list that may be null.\<close>

type_synonym poll_input = "observation list option outcome"

subsection \<open>The durable store and the event stream\<close>

record pending_update =
  pu_walletId :: string
  pu_hash :: string
  pu_amount :: rat
  pu_confirmations :: int
  pu_requiredConfirmations :: int

record credit =
  cr_walletId :: string
  cr_hash :: string
  cr_amount :: rat

text \<open>
  \<open>db\<close> holds the key \<open>(trxId, walletId)\<close> of every persisted transaction record,
  \<open>broadcasts\<close> the pending updates handed to \<open>storeAndBroadcastTransaction\<close>, in order,
  and \<open>credits\<close> the confirmed deposits it stored.
\<close>

record world =
  db :: "(string \<times> string) list"
  broadcasts :: "pending_update list"
  credits :: "credit list"

text \<open>
  Modelled from the spec: \<open>storeAndBroadcastTransaction\<close> (utils/redis/deposit) is not
  among the sources. For a pending update (third argument \<open>true\<close>) it publishes the event
  and persists nothing.
\<close>

definition broadcastPending :: "pending_update \<Rightarrow> world \<Rightarrow> world" where
  "broadcastPending u w = w\<lparr> broadcasts := broadcasts w @ [u] \<rparr>"

text \<open>
  Modelled from the spec: \<open>storeAndBroadcastTransaction\<close> for a confirmed deposit. When it
  succeeds it has created the persisted transaction keyed by (hash, walletId) and credited
  the ledger; when persistence fails nothing is stored.
\<close>

definition storeConfirmed :: "credit \<Rightarrow> world \<Rightarrow> world" where
  "storeConfirmed c w =
     w\<lparr> db := (cr_hash c, cr_walletId c) # db w, credits := credits w @ [c] \<rparr>"

subsection \<open>The poll cycle\<close>

text \<open>\<open>chainConfigs[this.chain]?.confirmations || 3\<close>: a missing or zero entry gives 3.\<close>

definition requiredConfirmations :: "config \<Rightarrow> int" where
  "requiredConfirmations cfg =
     (case chainConfirmations (chain cfg) of
        None \<Rightarrow> 3
      | Some n \<Rightarrow> if n = 0 then 3 else int n)"

definition confirmationsOf :: "utxo_tx \<Rightarrow> int" where
  "confirmationsOf tx = (case tx_confirmations tx of None \<Rightarrow> 0 | Some c \<Rightarrow> c)"

definition valueOf :: "nat option \<Rightarrow> nat" where
  "valueOf v = (case v of None \<Rightarrow> 0 | Some n \<Rightarrow> n)"

text \<open>
  The amount of a confirmed deposit: the outputs are converted to standard units, those
  whose address list contains the watched address are kept, and their values are summed.
\<close>

definition paysAddress :: "string \<Rightarrow> tx_output \<Rightarrow> bool" where
  "paysAddress a out = (case out_addresses out of None \<Rightarrow> False | Some as \<Rightarrow> a \<in> set as)"

definition depositAmount :: "config \<Rightarrow> full_tx \<Rightarrow> rat" where
  "depositAmount cfg ftx =
     (let outs = (case outputs ftx of None \<Rightarrow> [] | Some os \<Rightarrow> os)
      in foldl (\<lambda>s out. s + satoshiToStandardUnit cfg (valueOf (out_value out))) 0
           (filter (paysAddress (address cfg)) outs))"

text \<open>
  The body of the \<open>for\<close> loop over the fetched transactions. The first component of the
  result tells whether an exception left the loop (and reached the \<open>catch\<close> of the
  cycle); the inner \<open>try\<close> around a confirmed deposit swallows its own exceptions.
\<close>

definition processTransaction ::
  "config \<Rightarrow> observation \<Rightarrow> monitor \<times> world \<Rightarrow> bool \<times> monitor \<times> world" where
  "processTransaction cfg ob s =
     (let m = fst s; w = snd s; tx = obs_tx ob; h = tx_hash tx in
      if h \<in> processedTxHashes m then (False, m, w)
      else if findOne_rejects ob then (True, m, w)
      else if (h, wallet_id cfg) \<in> set (db w)
        then (False, m\<lparr> processedTxHashes := insert h (processedTxHashes m) \<rparr>, w)
      else
        let required = requiredConfirmations cfg; confirmations = confirmationsOf tx in
        if confirmations < required then
          (if lastBroadcastedConfirmations m h = Some confirmations then (False, m, w)
           else
             let u = \<lparr> pu_walletId = wallet_id cfg, pu_hash = h,
                       pu_amount = satoshiToStandardUnit cfg (valueOf (tx_value tx)),
                       pu_confirmations = confirmations,
                       pu_requiredConfirmations = required \<rparr>
             in if store_rejects ob then (True, m, broadcastPending u w)
                else (False,
                      m\<lparr> lastBroadcastedConfirmations :=
                           (lastBroadcastedConfirmations m)(h := Some confirmations) \<rparr>,
                      broadcastPending u w))
        else
          (case fetched_fullTx ob of
             Throws \<Rightarrow> (False, m, w)
           | Returns None \<Rightarrow> (False, m, w)
           | Returns (Some ftx) \<Rightarrow>
               if store_rejects ob then (False, m, w)
               else (False,
                     m\<lparr> processedTxHashes := insert h (processedTxHashes m) \<rparr>,
                     storeConfirmed \<lparr> cr_walletId = wallet_id cfg, cr_hash = h,
                                      cr_amount = depositAmount cfg ftx \<rparr> w)))"

fun processAll ::
  "config \<Rightarrow> observation list \<Rightarrow> monitor \<times> world \<Rightarrow> bool \<times> monitor \<times> world" where
  "processAll cfg [] s = (False, s)"
| "processAll cfg (ob # obs) s =
     (case processTransaction cfg ob s of
        (True, s') \<Rightarrow> (True, s')
      | (False, s') \<Rightarrow> processAll cfg obs s')"

text \<open>The \<open>try\<close> block of a cycle: fetch, then either nothing to do or the loop.\<close>

definition tryCycle :: "config \<Rightarrow> poll_input \<Rightarrow> monitor \<times> world \<Rightarrow> bool \<times> monitor \<times> world" where
  "tryCycle cfg inp s =
     (case inp of
        Throws \<Rightarrow> (True, s)
      | Returns None \<Rightarrow> (False, (fst s)\<lparr> consecutiveErrors := 0 \<rparr>, snd s)
      | Returns (Some txs) \<Rightarrow>
          if txs = [] then (False, (fst s)\<lparr> consecutiveErrors := 0 \<rparr>, snd s)
          else (case processAll cfg txs s of
                  (True, s') \<Rightarrow> (True, s')
                | (False, s') \<Rightarrow> (False, (fst s')\<lparr> consecutiveErrors := 0 \<rparr>, snd s')))"

definition stopPolling :: "monitor \<Rightarrow> monitor" where
  "stopPolling m = m\<lparr> active := False, intervalId := None \<rparr>"

text \<open>
  The delay handed to \<open>setTimeout\<close>:
  \<open>consecutiveErrors > 0 ? Math.min(POLLING_INTERVAL * Math.pow(2, consecutiveErrors - 1), 300000)
  : POLLING_INTERVAL\<close>.
\<close>

definition nextInterval :: "nat \<Rightarrow> nat" where
  "nextInterval errs =
     (if errs > 0 then min (POLLING_INTERVAL * 2 ^ (errs - 1)) 300000 else POLLING_INTERVAL)"

text \<open>
  One run of \<open>pollDeposits\<close>. \<open>intervalId\<close> holds the delay of the timer that is armed,
  if one is.
\<close>

definition pollDeposits :: "config \<Rightarrow> poll_input \<Rightarrow> monitor \<times> world \<Rightarrow> monitor \<times> world" where
  "pollDeposits cfg inp s =
     (if \<not> active (fst s) then s
      else
        (case tryCycle cfg inp s of
           (True, m1, w1) \<Rightarrow>
             let m2 = m1\<lparr> consecutiveErrors := consecutiveErrors m1 + 1 \<rparr> in
             if consecutiveErrors m2 \<ge> MAX_CONSECUTIVE_ERRORS then (stopPolling m2, w1)
             else if active m2 then (m2\<lparr> intervalId := Some (nextInterval (consecutiveErrors m2)) \<rparr>, w1)
             else (m2, w1)
         | (False, m1, w1) \<Rightarrow>
             if active m1 then (m1\<lparr> intervalId := Some (nextInterval (consecutiveErrors m1)) \<rparr>, w1)
             else (m1, w1)))"

text \<open>\<open>watchDeposits\<close> starts polling, unless the monitor is inactive.\<close>

definition watchDeposits :: "config \<Rightarrow> poll_input \<Rightarrow> monitor \<times> world \<Rightarrow> monitor \<times> world" where
  "watchDeposits cfg inp s = (if \<not> active (fst s) then s else pollDeposits cfg inp s)"


subsection \<open>Runs of the monitor\<close>

text \<open>A sequence of poll cycles of one monitor instance, each with what it fetched.\<close>

fun runPolls :: "config \<Rightarrow> poll_input list \<Rightarrow> monitor \<times> world \<Rightarrow> monitor \<times> world" where
  "runPolls cfg [] s = s"
| "runPolls cfg (i # is) s = runPolls cfg is (pollDeposits cfg i s)"

text \<open>Every cycle of the sequence ends in the \<open>catch\<close> block of \<open>pollDeposits\<close>.\<close>

fun cyclesFail :: "config \<Rightarrow> poll_input list \<Rightarrow> monitor \<times> world \<Rightarrow> bool" where
  "cyclesFail cfg [] s = True"
| "cyclesFail cfg (i # is) s = (fst (tryCycle cfg i s) \<and> cyclesFail cfg is (pollDeposits cfg i s))"

text \<open>
  A process restart constructs a new monitor for the same wallet and address: the in-memory
  fields start afresh, the durable store and the events already published stay.
\<close>

datatype event = Poll poll_input | Restart

fun runEvents :: "config \<Rightarrow> event list \<Rightarrow> monitor \<times> world \<Rightarrow> monitor \<times> world" where
  "runEvents cfg [] s = s"
| "runEvents cfg (Poll i # es) s = runEvents cfg es (pollDeposits cfg i s)"
| "runEvents cfg (Restart # es) s = runEvents cfg es (newMonitor, snd s)"

definition creditKey :: "credit \<Rightarrow> string \<times> string" where
  "creditKey c = (cr_hash c, cr_walletId c)"

definition creditsBacked :: "world \<Rightarrow> bool" where
  "creditsBacked w =
     (distinct (map creditKey (credits w))
      \<and> list_all (\<lambda>k. k \<in> set (db w)) (map creditKey (credits w)))"

definition creditsFor :: "string \<Rightarrow> string \<Rightarrow> world \<Rightarrow> credit list" where
  "creditsFor wid h w = filter (\<lambda>c. cr_hash c = h \<and> cr_walletId c = wid) (credits w)"

subsection \<open>Concrete inputs\<close>

definition demoConfig :: config where
  "demoConfig = \<lparr> wallet_id = ''w1'', chain = ''LTC'', address = ''addr1'',
     satoshiToStandardUnit = (\<lambda>n. of_nat n / 100000000) \<rparr>"

definition emptyWorld :: world where
  "emptyWorld = \<lparr> db = [], broadcasts = [], credits = [] \<rparr>"

definition sighting :: "string \<Rightarrow> int \<Rightarrow> observation" where
  "sighting h c =
     \<lparr> obs_tx = \<lparr> tx_hash = h, tx_confirmations = Some c, tx_value = Some 50000 \<rparr>,
       findOne_rejects = False,
       fetched_fullTx = Returns (Some \<lparr> outputs = Some
         [\<lparr> out_value = Some 50000, out_addresses = Some [''addr1''] \<rparr>,
          \<lparr> out_value = Some 7000, out_addresses = Some [''other''] \<rparr>] \<rparr>),
       store_rejects = False \<rparr>"

definition sightings :: "string \<Rightarrow> int list \<Rightarrow> poll_input list" where
  "sightings h cs = map (\<lambda>c. Returns (Some [sighting h c])) cs"


section \<open>Withdrawals (ecosystem/withdraw/index.post.ts)\<close>

subsection \<open>Numbers and their decimal strings\<close>

text \<open>
  \<open>countDecimals\<close> works on the string that \<open>Number.prototype.toString\<close> produces, so an
  amount is kept as the decimal that this string spells: \<open>digits \<times> 10 ^ exp10\<close>, negated
  when \<open>neg\<close> holds, with \<open>digits\<close> not ending in a zero (the shortest digit string that
  reads back as the number). Arithmetic on amounts is exact arithmetic on these decimals;
  NaN, the infinities and binary rounding are outside the model.
\<close>

record number =
  neg :: bool
  digits :: nat
  exp10 :: int

definition canonical :: "number \<Rightarrow> bool" where
  "canonical x = (if digits x = 0 then exp10 x = 0 \<and> \<not> neg x else digits x mod 10 \<noteq> 0)"

definition magnitude :: "number \<Rightarrow> rat" where
  "magnitude x =
     (if exp10 x \<ge> 0 then of_nat (digits x) * 10 ^ nat (exp10 x)
      else of_nat (digits x) / 10 ^ nat (- exp10 x))"

definition numberValue :: "number \<Rightarrow> rat" where
  "numberValue x = (if neg x then - magnitude x else magnitude x)"

text \<open>\<open>Math.abs\<close>.\<close>

definition mathAbs :: "number \<Rightarrow> number" where
  "mathAbs x = x\<lparr> neg := False \<rparr>"

text \<open>\<open>Number.isInteger\<close>: the value has no fractional part.\<close>

definition isInteger :: "number \<Rightarrow> bool" where
  "isInteger x = (exp10 x \<ge> 0 \<or> digits x mod 10 ^ nat (- exp10 x) = 0)"

text \<open>
  The number of decimal places of an amount, as the spec counts them: the digits after
  the decimal point in its plain decimal notation.
\<close>

definition decimalPlaces :: "number \<Rightarrow> nat" where
  "decimalPlaces x = (if exp10 x < 0 \<and> digits x \<noteq> 0 then nat (- exp10 x) else 0)"

fun natDigits :: "nat \<Rightarrow> nat list" where
  "natDigits n = (if n < 10 then [n] else natDigits (n div 10) @ [n mod 10])"

definition digitChar :: "nat \<Rightarrow> char" where
  "digitChar d = ''0123456789'' ! d"

definition natString :: "nat \<Rightarrow> string" where
  "natString n = map digitChar (natDigits n)"

text \<open>
  \<open>Number::toString\<close> of ECMAScript for radix 10. With \<open>k\<close> the number of digits and
  \<open>n = exp10 + k\<close> the position of the decimal point: an integer up to 21 digits is
  written out, a point inside the digits is written in place, up to five zeros between
  \<open>0.\<close> and the digits are written out, and everything else uses exponent notation.
\<close>

definition toString :: "number \<Rightarrow> string" where
  "toString x =
     (if digits x = 0 then ''0''
      else
        let ds = natString (digits x); k = int (length ds); n = exp10 x + k;
            sign = (if neg x then ''-'' else '''')
        in sign @
          (if k \<le> n \<and> n \<le> 21 then ds @ replicate (nat (n - k)) (CHR ''0'')
           else if 0 < n \<and> n \<le> 21 then take (nat n) ds @ ''.'' @ drop (nat n) ds
           else if - 6 < n \<and> n \<le> 0 then ''0.'' @ replicate (nat (- n)) (CHR ''0'') @ ds
           else
             let e = n - 1;
                 expo = (if e < 0 then ''-'' else ''+'') @ natString (nat \<bar>e\<bar>)
             in if k = 1 then ds @ ''e'' @ expo
                else take 1 ds @ ''.'' @ drop 1 ds @ ''e'' @ expo))"

subsection \<open>The string operations \<open>countDecimals\<close> uses\<close>

fun startsWith :: "string \<Rightarrow> string \<Rightarrow> bool" where
  "startsWith [] s = True"
| "startsWith (p # ps) [] = False"
| "startsWith (p # ps) (c # cs) = (p = c \<and> startsWith ps cs)"

text \<open>\<open>String.prototype.includes\<close>.\<close>

fun includesStr :: "string \<Rightarrow> string \<Rightarrow> bool" where
  "includesStr [] p = (p = [])"
| "includesStr (c # cs) p = (startsWith p (c # cs) \<or> includesStr cs p)"

text \<open>
  \<open>String.prototype.split\<close> with a non-empty separator: \<open>acc\<close> is the piece being read.
\<close>

function splitFrom :: "string \<Rightarrow> string \<Rightarrow> string \<Rightarrow> string list" where
  "splitFrom sep acc s =
     (if s = [] then [acc]
      else if sep \<noteq> [] \<and> startsWith sep s then acc # splitFrom sep [] (drop (length sep) s)
      else splitFrom sep (acc @ [hd s]) (tl s))"
  by pat_completeness auto
termination
  by (relation "measure (\<lambda>(sep, acc, s). length s)") auto

definition splitStr :: "string \<Rightarrow> string \<Rightarrow> string list" where
  "splitStr s sep = (if sep = [] then map (\<lambda>c. [c]) s else splitFrom sep [] s)"

definition isDigit :: "char \<Rightarrow> bool" where
  "isDigit c = (c \<in> set ''0123456789'')"

definition digitValue :: "char \<Rightarrow> nat" where
  "digitValue c = length (takeWhile (\<lambda>d. d \<noteq> c) ''0123456789'')"

text \<open>
  \<open>parseInt(s, 10)\<close> on a string that starts with neither white space nor a sign (here
  it is what follows \<open>e-\<close> in a number's string): the leading digits are read, and no
  digit at all gives NaN, which is \<open>None\<close>.
\<close>

definition parseInt :: "string \<Rightarrow> nat option" where
  "parseInt s =
     (let ds = takeWhile isDigit s
      in if ds = [] then None
         else Some (foldl (\<lambda>v c. 10 * v + digitValue c) 0 ds))"

text \<open>
  \<open>countDecimals\<close>. In the exponent branch the destructuring takes the second piece of the
  split (a missing piece is \<open>undefined\<close>, which \<open>parseInt\<close> turns into NaN); in the last
  line a missing second piece counts as 0.
\<close>

definition countDecimals :: "number \<Rightarrow> nat option" where
  "countDecimals v =
     (if isInteger v then Some 0
      else
        let str = toString v in
        if includesStr str ''e-'' then
          (case splitStr str ''e-'' of
             _ # exponent # _ \<Rightarrow> parseInt exponent
           | _ \<Rightarrow> None)
        else
          (case splitStr str ''.'' of
             _ # p # _ \<Rightarrow> Some (length p)
           | _ \<Rightarrow> Some 0))"

subsection \<open>Wallets, tokens and the ledger\<close>

record address_entry =
  entry_address :: string

text \<open>
  A wallet row. \<open>w_addresses\<close> is the address map of the wallet, chain by chain, as
  \<open>parseAddresses\<close> returns it (\<open>parseAddresses\<close>, in finance/transfer, is not among
  the sources: the column is kept parsed).
\<close>

record wallet =
  w_id :: string
  w_userId :: string
  w_currency :: string
  w_type :: string
  balance :: rat
  inOrder :: rat
  w_addresses :: "(string \<times> address_entry) list"

text \<open>
  The available balance of a wallet row as the creation of a P2P sell offer computes it
  before it compares it with the required amount (p2p/offers/create.post.ts:
  \<open>wallet.balance - wallet.inOrder\<close>).
\<close>

definition availableBalance :: "wallet \<Rightarrow> rat" where
  "availableBalance w = balance w - inOrder w"

record token_fee =
  percentage :: "rat option"
  fee_min :: "rat option"

text \<open>
  A token as \<open>getEcosystemToken\<close> returns it; \<open>fee\<close> is the parsed JSON of the fee column,
  \<open>None\<close> when the column is empty.
\<close>

record token =
  precision :: "nat option"
  decimals :: "nat option"
  fee :: "token_fee option"

record pending_transaction =
  pt_id :: nat
  pt_userId :: string
  pt_walletId :: string
  pt_currency :: string
  pt_chain :: string
  pt_amount :: rat
  pt_toAddress :: string
  pt_fee :: rat
  pt_status :: string

record transfer_call =
  tr_from :: string
  tr_to :: string
  tr_currency :: string
  tr_chain :: string
  tr_amount :: rat

text \<open>
  The state a withdrawal reads and writes: the wallet rows, the transaction rows, the
  withdrawal queue, and the calls handed over to \<open>processInternalTransfer\<close>.
\<close>

record ledger =
  wallets :: "wallet list"
  transactions :: "pending_transaction list"
  queue :: "nat list"
  internalTransfers :: "transfer_call list"

text \<open>
  The collaborators of a withdrawal. \<open>validateAddress\<close> answers the message of the error
  it throws, if it throws; \<open>getTronService\<close> and \<open>getMoneroService\<close> answer nothing when
  the service is not installed, the Monero service being its estimated fee;
  \<open>internalTransferFails\<close> is the message of the error with which
  \<open>processInternalTransfer\<close> rejects a call, if it does.
\<close>

record tron_service =
  isAddressActivated :: "string \<Rightarrow> bool"
  estimateTransactionFee :: "string \<Rightarrow> string \<Rightarrow> int \<Rightarrow> rat"

record services =
  validateAddress :: "string \<Rightarrow> string \<Rightarrow> string option"
  getEcosystemToken :: "string \<Rightarrow> string \<Rightarrow> token option"
  getTronService :: "tron_service option"
  getWalletData :: "string \<Rightarrow> string \<Rightarrow> bool"
  getMoneroService :: "rat option"
  internalTransferFails :: "transfer_call \<Rightarrow> string option"

datatype error = Error string

subsection \<open>\<open>storeWithdrawal\<close>\<close>

definition calculateWithdrawalFee :: "rat \<Rightarrow> rat \<Rightarrow> rat \<Rightarrow> rat" where
  "calculateWithdrawalFee amount currencyWithdrawalFee minimumWithdrawalFee =
     (let calculatedFee = (amount * currencyWithdrawalFee) / 100
      in max calculatedFee minimumWithdrawalFee)"

text \<open>The service fee of a token: 0 without a fee configuration, missing entries count as 0.\<close>

definition withdrawalFeeOf :: "token \<Rightarrow> rat \<Rightarrow> rat" where
  "withdrawalFeeOf tok amount =
     (case fee tok of
        None \<Rightarrow> 0
      | Some tokenFee \<Rightarrow>
          calculateWithdrawalFee amount
            (case percentage tokenFee of None \<Rightarrow> 0 | Some p \<Rightarrow> p)
            (case fee_min tokenFee of None \<Rightarrow> 0 | Some m \<Rightarrow> m))"

text \<open>\<open>token.precision ?? token.decimals ?? 8\<close>.\<close>

definition maxPrecision :: "token \<Rightarrow> nat" where
  "maxPrecision tok =
     (case precision tok of
        Some p \<Rightarrow> p
      | None \<Rightarrow> (case decimals tok of Some d \<Rightarrow> d | None \<Rightarrow> 8))"

text \<open>\<open>actualDecimals > maxPrecision\<close>; a comparison with NaN is false.\<close>

definition exceedsPrecision :: "number \<Rightarrow> token \<Rightarrow> bool" where
  "exceedsPrecision amount tok =
     (case countDecimals amount of None \<Rightarrow> False | Some d \<Rightarrow> d > maxPrecision tok)"

definition precisionMessage :: "string \<Rightarrow> string \<Rightarrow> nat \<Rightarrow> nat \<Rightarrow> string" where
  "precisionMessage currency chn maxP actual =
     ''Amount has too many decimal places for '' @ currency @ '' on '' @ chn
     @ ''. Max allowed is '' @ natString maxP @ '' decimal places. Your amount has ''
     @ natString actual @ '' decimal places.''"

text \<open>\<open>models.wallet.findOne({ where: { userId, currency, type: "ECO" } })\<close>.\<close>

definition findUserWallet :: "string \<Rightarrow> string \<Rightarrow> wallet list \<Rightarrow> wallet option" where
  "findUserWallet userId currency ws =
     find (\<lambda>w. w_userId w = userId \<and> w_currency w = currency \<and> w_type w = ''ECO'') ws"

text \<open>\<open>Math.round\<close>: the nearest integer, halves upwards.\<close>

definition mathRound :: "rat \<Rightarrow> int" where
  "mathRound x = \<lfloor>x + 1 / 2\<rfloor>"

text \<open>
  The activation fee and the estimated network fee of the chain (the branches for TRON
  and XMR); every other chain has neither.
\<close>

definition chainFees ::
  "services \<Rightarrow> wallet \<Rightarrow> string \<Rightarrow> rat \<Rightarrow> string \<Rightarrow> error + rat \<times> rat" where
  "chainFees env userWallet chn amount toAddress =
     (if chn = ''TRON'' then
        (case getTronService env of
           None \<Rightarrow> Inl (Error ''Tron service not available'')
         | Some tronService \<Rightarrow>
             let activationFee = (if isAddressActivated tronService toAddress then 0 else 1) in
             if \<not> getWalletData env (w_id userWallet) chn
             then Inl (Error ''Wallet data not found'')
             else
               (case map_of (w_addresses userWallet) chn of
                  None \<Rightarrow> Inl (Error ''Cannot read properties of undefined'')
                | Some entry \<Rightarrow>
                    let amountSun = mathRound (amount * 1000000);
                        estimatedFeeSun =
                          estimateTransactionFee tronService (entry_address entry) toAddress amountSun
                    in Inr (activationFee, estimatedFeeSun / 1000000)))
      else if chn = ''XMR'' then
        (case getMoneroService env of
           None \<Rightarrow> Inl (Error ''Monero service not available'')
         | Some estimatedFee \<Rightarrow> Inr (0, estimatedFee))
      else Inr (0, 0))"

text \<open>
  Everything \<open>storeWithdrawal\<close> does before it compares the balance: the checks of the
  chain, the address, the wallet, the token and the precision, and the fees. The result is
  the user's wallet and the total fee.
\<close>

definition withdrawalChecks ::
  "services \<Rightarrow> ledger \<Rightarrow> string \<Rightarrow> string \<Rightarrow> string \<Rightarrow> number \<Rightarrow> string
     \<Rightarrow> error + wallet \<times> rat" where
  "withdrawalChecks env l userId currency chn amount toAddress =
     (if chn = [] then Inl (Error ''Invalid or missing chain parameter'')
      else
        case (if chn \<in> set [''BTC'', ''LTC'', ''DOGE'', ''DASH''] then None
              else validateAddress env toAddress chn) of
          Some msg \<Rightarrow> Inl (Error msg)
        | None \<Rightarrow>
            (case findUserWallet userId currency (wallets l) of
               None \<Rightarrow> Inl (Error ''User wallet not found'')
             | Some userWallet \<Rightarrow>
                 (case getEcosystemToken env chn currency of
                    None \<Rightarrow> Inl (Error ''Token not found'')
                  | Some tok \<Rightarrow>
                      if exceedsPrecision amount tok
                      then Inl (Error (precisionMessage currency chn (maxPrecision tok)
                                  (case countDecimals amount of None \<Rightarrow> 0 | Some d \<Rightarrow> d)))
                      else
                        let withdrawalFee = withdrawalFeeOf tok (numberValue amount) in
                        (case chainFees env userWallet chn (numberValue amount) toAddress of
                           Inl e \<Rightarrow> Inl e
                         | Inr (activationFee, estimatedFee) \<Rightarrow>
                             Inr (userWallet, withdrawalFee + activationFee + estimatedFee)))))"

text \<open>
  Modelled from the spec: \<open>decrementWalletBalance\<close> (ecosystem/utils/wallet) is not among the
  sources. It debits the amount from the balance of the wallet row with the given id.
\<close>

definition decrementWalletBalance :: "wallet \<Rightarrow> rat \<Rightarrow> wallet list \<Rightarrow> wallet list" where
  "decrementWalletBalance userWallet amount ws =
     map (\<lambda>w. if w_id w = w_id userWallet then w\<lparr> balance := balance userWallet - amount \<rparr> else w) ws"

text \<open>
  Modelled from the spec: \<open>createPendingTransaction\<close> (ecosystem/utils/wallet) is not among
  the sources. It creates a persisted transaction with status PENDING; the row gets the
  next free id.
\<close>

definition createPendingTransaction ::
  "string \<Rightarrow> string \<Rightarrow> string \<Rightarrow> string \<Rightarrow> rat \<Rightarrow> string \<Rightarrow> rat \<Rightarrow> pending_transaction list
     \<Rightarrow> pending_transaction" where
  "createPendingTransaction userId walletId currency chn amount toAddress totalFee txs =
     \<lparr> pt_id = length txs, pt_userId = userId, pt_walletId = walletId, pt_currency = currency,
       pt_chain = chn, pt_amount = amount, pt_toAddress = toAddress, pt_fee = totalFee,
       pt_status = ''PENDING'' \<rparr>"

record withdrawal_result =
  res_transaction :: pending_transaction
  res_balance :: rat
  res_method :: string
  res_currency :: string

definition storeWithdrawal ::
  "services \<Rightarrow> ledger \<Rightarrow> string \<Rightarrow> string \<Rightarrow> string \<Rightarrow> number \<Rightarrow> string
     \<Rightarrow> (error + withdrawal_result) \<times> ledger" where
  "storeWithdrawal env l userId currency chn amount toAddress =
     (case withdrawalChecks env l userId currency chn amount toAddress of
        Inl e \<Rightarrow> (Inl e, l)
      | Inr (userWallet, totalFee) \<Rightarrow>
          let totalAmount = numberValue amount + totalFee in
          if balance userWallet < totalAmount then (Inl (Error ''Insufficient funds''), l)
          else
            let ws = decrementWalletBalance userWallet totalAmount (wallets l);
                transaction =
                  createPendingTransaction userId (w_id userWallet) currency chn
                    (numberValue amount) toAddress totalFee (transactions l)
            in (Inr \<lparr> res_transaction = transaction,
                      res_balance = balance userWallet - totalAmount,
                      res_method = chn, res_currency = currency \<rparr>,
                l\<lparr> wallets := ws,
                   transactions := transactions l @ [transaction],
                   queue := queue l @ [pt_id transaction] \<rparr>))"

subsection \<open>The handler\<close>

text \<open>
  \<open>findWalletByAddress\<close>: the first ECO wallet one of whose chain entries carries the
  address.
\<close>

definition hasAddress :: "string \<Rightarrow> wallet \<Rightarrow> bool" where
  "hasAddress toAddress w = list_ex (\<lambda>ce. entry_address (snd ce) = toAddress) (w_addresses w)"

definition findWalletByAddress :: "string \<Rightarrow> wallet list \<Rightarrow> wallet option" where
  "findWalletByAddress toAddress ws =
     find (hasAddress toAddress) (filter (\<lambda>w. w_type w = ''ECO'') ws)"

record request =
  req_user :: "string option"
  req_currency :: string
  req_chain :: string
  req_amount :: number
  req_toAddress :: string

datatype http_error = HttpError nat string

datatype response = Transferred transfer_call | Withdrawn withdrawal_result

text \<open>
  Modelled from the spec: \<open>processInternalTransfer\<close> (finance/transfer) is not among the
  sources, and the spec says nothing of what it does to the two users' balances. The call
  is recorded with its arguments; it returns its own response or rejects.
\<close>

definition processInternalTransfer ::
  "services \<Rightarrow> string \<Rightarrow> string \<Rightarrow> string \<Rightarrow> string \<Rightarrow> rat \<Rightarrow> ledger
     \<Rightarrow> (error + response) \<times> ledger" where
  "processInternalTransfer env fromUser toUser currency chn amount l =
     (let c = \<lparr> tr_from = fromUser, tr_to = toUser, tr_currency = currency,
                 tr_chain = chn, tr_amount = amount \<rparr>
      in (case internalTransferFails env c of
            None \<Rightarrow> Inr (Transferred c)
          | Some msg \<Rightarrow> Inl (Error msg),
          l\<lparr> internalTransfers := internalTransfers l @ [c] \<rparr>))"

text \<open>
  The \<open>catch\<close> of the handler: only the message \<open>INSUFFICIENT_FUNDS\<close> becomes a 400,
  every other error a 500.
\<close>

definition handlerError :: "error \<Rightarrow> http_error" where
  "handlerError e =
     (case e of Error msg \<Rightarrow>
        if msg = ''INSUFFICIENT_FUNDS'' then HttpError 400 ''Insufficient funds''
        else HttpError 500 (''Failed to withdraw: Error: '' @ msg))"

definition withdrawFunds ::
  "services \<Rightarrow> request \<Rightarrow> ledger \<Rightarrow> (http_error + response) \<times> ledger" where
  "withdrawFunds env req l =
     (case req_user req of
        None \<Rightarrow> (Inl (HttpError 401 ''Unauthorized''), l)
      | Some userId \<Rightarrow>
          if req_chain req = [] then (Inl (handlerError (Error ''Chain parameter is required'')), l)
          else
            let parsedAmount = mathAbs (req_amount req) in
            (case findWalletByAddress (req_toAddress req) (wallets l) of
               Some recipientWallet \<Rightarrow>
                 (case processInternalTransfer env userId (w_userId recipientWallet)
                         (req_currency req) (req_chain req) (numberValue parsedAmount) l of
                    (Inl e, l') \<Rightarrow> (Inl (handlerError e), l')
                  | (Inr r, l') \<Rightarrow> (Inr r, l'))
             | None \<Rightarrow>
                 (case storeWithdrawal env l userId (req_currency req) (req_chain req)
                         parsedAmount (req_toAddress req) of
                    (Inl e, l') \<Rightarrow> (Inl (handlerError e), l')
                  | (Inr r, l') \<Rightarrow> (Inr (Withdrawn r), l'))))"

subsection \<open>Concrete inputs\<close>

definition btcToken :: token where
  "btcToken = \<lparr> precision = Some 8, decimals = Some 8,
     fee = Some \<lparr> percentage = Some (1 / 2), fee_min = Some (1 / 10000) \<rparr> \<rparr>"

definition demoServices :: services where
  "demoServices = \<lparr> validateAddress = (\<lambda>a c. None),
     getEcosystemToken = (\<lambda>c cur. if cur = ''BTC'' then Some btcToken else None),
     getTronService = None, getWalletData = (\<lambda>w c. True), getMoneroService = None,
     internalTransferFails = (\<lambda>c. None) \<rparr>"

definition aliceWallet :: wallet where
  "aliceWallet = \<lparr> w_id = ''w1'', w_userId = ''alice'', w_currency = ''BTC'', w_type = ''ECO'',
     balance = 100, inOrder = 50,
     w_addresses = [(''BTC'', \<lparr> entry_address = ''addrA'' \<rparr>)] \<rparr>"

definition bobWallet :: wallet where
  "bobWallet = \<lparr> w_id = ''w2'', w_userId = ''bob'', w_currency = ''BTC'', w_type = ''ECO'',
     balance = 3, inOrder = 0,
     w_addresses = [(''BTC'', \<lparr> entry_address = ''addrB'' \<rparr>)] \<rparr>"

definition demoLedger :: ledger where
  "demoLedger = \<lparr> wallets = [aliceWallet, bobWallet], transactions = [], queue = [],
     internalTransfers = [] \<rparr>"

text \<open>The amount \<open>d \<times> 10 ^ e\<close>, and the amount 0.000000123, which prints as \<open>1.23e-7\<close>.\<close>

definition amountOf :: "nat \<Rightarrow> int \<Rightarrow> number" where
  "amountOf d e = \<lparr> neg = False, digits = d, exp10 = e \<rparr>"

definition tinyAmount :: number where
  "tinyAmount = \<lparr> neg = False, digits = 123, exp10 = - 9 \<rparr>"

text \<open>Alice asks to withdraw 2.5 BTC to the address of Bob's wallet.\<close>

definition toBob :: request where
  "toBob = \<lparr> req_user = Some ''alice'', req_currency = ''BTC'', req_chain = ''BTC'',
     req_amount = \<lparr> neg = True, digits = 25, exp10 = - 1 \<rparr>, req_toAddress = ''addrB'' \<rparr>"


section \<open>Explorer transactions and their cache (ecosystem/utils/transactions.ts)\<close>

record raw_transaction =
  raw_timeStamp :: string
  raw_hash :: string
  raw_from :: string
  raw_to :: string
  raw_value :: string
  raw_functionName :: string
  raw_methodId :: string
  raw_contractAddress :: string
  raw_confirmations :: string
  raw_txreceipt_status :: string
  raw_isError :: string
  raw_gas :: string
  raw_gasPrice :: string
  raw_gasUsed :: string

record parsed_transaction =
  p_timestamp :: string
  p_hash :: string
  p_from :: string
  p_to :: string
  p_amount :: string
  p_method :: string
  p_methodId :: string
  p_contract :: string
  p_confirmations :: string
  p_status :: string
  p_isError :: string
  p_gas :: string
  p_gasPrice :: string
  p_gasUsed :: string

definition CACHE_EXPIRATION :: nat where
  "CACHE_EXPIRATION = 30"

text \<open>
  The answer of an explorer: its \<open>result\<close> field when that is an array, \<open>None\<close> when
  it is anything else.
\<close>

type_synonym raw_response = "raw_transaction list option"

definition parseRawTransactions :: "raw_response \<Rightarrow> error + parsed_transaction list" where
  "parseRawTransactions rawTransactions =
     (case rawTransactions of
        None \<Rightarrow> Inl (Error ''Invalid raw transactions format: expected {result: array}'')
      | Some result \<Rightarrow>
          Inr (map (\<lambda>rawTx.
                 \<lparr> p_timestamp = raw_timeStamp rawTx, p_hash = raw_hash rawTx,
                   p_from = raw_from rawTx, p_to = raw_to rawTx, p_amount = raw_value rawTx,
                   p_method = raw_functionName rawTx, p_methodId = raw_methodId rawTx,
                   p_contract = raw_contractAddress rawTx,
                   p_confirmations = raw_confirmations rawTx,
                   p_status = raw_txreceipt_status rawTx, p_isError = raw_isError rawTx,
                   p_gas = raw_gas rawTx, p_gasPrice = raw_gasPrice rawTx,
                   p_gasUsed = raw_gasUsed rawTx \<rparr>) result))"

subsection \<open>Redis and the clock\<close>

text \<open>
  Times are milliseconds. The value kept under a cache key is the object that the code
  serialises, a transaction list with the time it was written. Redis is a library behind
  \<open>RedisSingleton\<close>: \<open>SETEX key seconds value\<close> stores the value with a time to live in
  seconds, and \<open>GET\<close> answers nil once that time has passed.
\<close>

record cache_data =
  cd_transactions :: "parsed_transaction list"
  cd_timestamp :: nat

record redis_entry =
  re_value :: cache_data
  re_expires :: nat

type_synonym redis = "string \<Rightarrow> redis_entry option"

definition redis_get :: "redis \<Rightarrow> string \<Rightarrow> nat \<Rightarrow> cache_data option" where
  "redis_get r key now =
     (case r key of
        None \<Rightarrow> None
      | Some e \<Rightarrow> if now < re_expires e then Some (re_value e) else None)"

definition redis_setex :: "redis \<Rightarrow> string \<Rightarrow> nat \<Rightarrow> cache_data \<Rightarrow> nat \<Rightarrow> redis" where
  "redis_setex r key seconds v now =
     r(key := Some \<lparr> re_value = v, re_expires = now + seconds * 1000 \<rparr>)"

text \<open>\<open>differenceInMinutes\<close> of date-fns: the full minutes between two times, truncated towards zero.\<close>

definition differenceInMinutes :: "nat \<Rightarrow> nat \<Rightarrow> int" where
  "differenceInMinutes later earlier =
     (let d = int later - int earlier
      in if d \<ge> 0 then d div 60000 else - ((- d) div 60000))"

subsection \<open>The cached fetch\<close>

definition toLowerCase :: "string \<Rightarrow> string" where
  "toLowerCase s =
     map (\<lambda>c. case map_of (zip ''ABCDEFGHIJKLMNOPQRSTUVWXYZ'' ''abcdefghijklmnopqrstuvwxyz'') c of
                None \<Rightarrow> c | Some l \<Rightarrow> l) s"

definition cacheKey :: "string \<Rightarrow> string \<Rightarrow> string" where
  "cacheKey addr chn = ''wallet:'' @ addr @ '':transactions:'' @ toLowerCase chn"

definition getCachedData :: "redis \<Rightarrow> string \<Rightarrow> nat \<Rightarrow> parsed_transaction list option" where
  "getCachedData r key now =
     (case redis_get r key now of
        None \<Rightarrow> None
      | Some cachedData \<Rightarrow>
          if differenceInMinutes now (cd_timestamp cachedData) < int CACHE_EXPIRATION
          then Some (cd_transactions cachedData)
          else None)"

text \<open>
  The outcome of one call: what it returned, the contents of Redis afterwards, and whether
  \<open>config.fetchFunction\<close> (the network call) was invoked.
\<close>

record fetch_outcome =
  fo_result :: "error + parsed_transaction list"
  fo_redis :: redis
  fo_network_called :: bool

text \<open>
  \<open>fetchAndParseTransactions\<close>; \<open>cache\<close> is \<open>config.cache\<close>, \<open>net\<close> is what the
  network call answers if it is made, and \<open>now\<close> is the time of the call.
\<close>

definition fetchAndParseTransactions ::
  "bool \<Rightarrow> string \<Rightarrow> string \<Rightarrow> raw_response outcome \<Rightarrow> nat \<Rightarrow> redis \<Rightarrow> fetch_outcome" where
  "fetchAndParseTransactions cache addr chn net now r =
     (let key = cacheKey addr chn in
      case (if cache then getCachedData r key now else None) of
        Some cachedData \<Rightarrow>
          \<lparr> fo_result = Inr cachedData, fo_redis = r, fo_network_called = False \<rparr>
      | None \<Rightarrow>
          (case net of
             Throws \<Rightarrow>
               \<lparr> fo_result = Inl (Error ''API call failed''), fo_redis = r,
                 fo_network_called = True \<rparr>
           | Returns rawTransactions \<Rightarrow>
               (case parseRawTransactions rawTransactions of
                  Inl e \<Rightarrow> \<lparr> fo_result = Inl e, fo_redis = r, fo_network_called = True \<rparr>
                | Inr parsedTransactions \<Rightarrow>
                    \<lparr> fo_result = Inr parsedTransactions,
                      fo_redis =
                        (if cache
                         then redis_setex r key CACHE_EXPIRATION
                                \<lparr> cd_transactions = parsedTransactions, cd_timestamp = now \<rparr> now
                         else r),
                      fo_network_called = True \<rparr>)))"

subsection \<open>Concrete inputs\<close>

definition rawOf :: "string \<Rightarrow> raw_transaction" where
  "rawOf h = \<lparr> raw_timeStamp = ''1700000000'', raw_hash = h, raw_from = ''0xa'', raw_to = ''0xb'',
     raw_value = ''1000'', raw_functionName = '''', raw_methodId = ''0x'',
     raw_contractAddress = '''', raw_confirmations = ''12'', raw_txreceipt_status = ''1'',
     raw_isError = ''0'', raw_gas = ''21000'', raw_gasPrice = ''1'', raw_gasUsed = ''21000'' \<rparr>"

definition emptyRedis :: redis where
  "emptyRedis = (\<lambda>_. None)"

text \<open>
  A first fetch for an address on ETH at time 0 finds one transaction, and Redis as that
  fetch leaves it.
\<close>

definition firstFetch :: fetch_outcome where
  "firstFetch =
     fetchAndParseTransactions True ''0xb'' ''ETH'' (Returns (Some [rawOf ''0x01''])) 0 emptyRedis"


section \<open>The Bitcoin node service (ecosystem/utils/utxo/btc-node.ts)\<close>

text \<open>
  An entry of the wallet's transaction list as the node reports it; \<open>address\<close> is absent
  for some categories.
\<close>

record node_tx =
  ntx_address :: "string option"
  ntx_txid :: string
  ntx_category :: string
  ntx_confirmations :: int

text \<open>
  The node as the service sees it: the transactions of the watch-only wallet
  \<open>ecosystem_wallets\<close>, oldest first, and the error the RPC answers with, if any.
\<close>

record node =
  history :: "node_tx list"
  rpc_error :: "string option"

text \<open>
  The RPC \<open>listtransactions label count skip include_watchonly\<close> of Bitcoin Core: the
  \<open>count\<close> most recent transactions after skipping the \<open>skip\<close> most recent, oldest
  first.
\<close>

definition listtransactions :: "node_tx list \<Rightarrow> nat \<Rightarrow> nat \<Rightarrow> node_tx list" where
  "listtransactions h count skip = rev (take count (drop skip (rev h)))"

text \<open>
  \<open>walletRpcCall("listtransactions", ["*", count, skip, true])\<close>: an error of the node is
  thrown.
\<close>

definition walletRpcCall_listtransactions :: "node \<Rightarrow> nat \<Rightarrow> nat \<Rightarrow> error + node_tx list" where
  "walletRpcCall_listtransactions nd count skip =
     (case rpc_error nd of
        Some msg \<Rightarrow> Inl (Error msg)
      | None \<Rightarrow> Inr (listtransactions (history nd) count skip))"

definition getAddressTransactions :: "node \<Rightarrow> string \<Rightarrow> error + node_tx list" where
  "getAddressTransactions nd addr =
     (case walletRpcCall_listtransactions nd 100 0 of
        Inl e \<Rightarrow> Inl e
      | Inr txs \<Rightarrow> Inr (filter (\<lambda>tx. ntx_address tx = Some addr) txs))"

subsection \<open>Concrete inputs\<close>

text \<open>A wallet with 101 transactions, all received on the same address; number 0 is the oldest.\<close>

definition receiveNo :: "nat \<Rightarrow> node_tx" where
  "receiveNo i = \<lparr> ntx_address = Some ''addr1'', ntx_txid = replicate i (CHR ''a''),
     ntx_category = ''receive'', ntx_confirmations = 200 - int i \<rparr>"

definition busyNode :: node where
  "busyNode = \<lparr> history = map receiveNo [0..<101], rpc_error = None \<rparr>"


section \<open>Properties of the deposit monitor\<close>

lemmas monitor_eval =
  pollDeposits_def tryCycle_def processTransaction_def newMonitor_def demoConfig_def
  emptyWorld_def sighting_def sightings_def requiredConfirmations_def chainConfirmations_def
  confirmationsOf_def
  valueOf_def paysAddress_def depositAmount_def broadcastPending_def storeConfirmed_def
  stopPolling_def nextInterval_def POLLING_INTERVAL_def MAX_CONSECUTIVE_ERRORS_def Let_def

subsection \<open>The loop leaves the scheduling fields alone\<close>

lemma processTransaction_fields:
  "processTransaction cfg ob s = (t, m', w') \<Longrightarrow>
     active m' = active (fst s) \<and> consecutiveErrors m' = consecutiveErrors (fst s)
     \<and> intervalId m' = intervalId (fst s)"
  by (auto simp: processTransaction_def Let_def split: if_splits outcome.splits option.splits)

lemma processAll_fields:
  "processAll cfg obs s = (t, m', w') \<Longrightarrow>
     active m' = active (fst s) \<and> consecutiveErrors m' = consecutiveErrors (fst s)
     \<and> intervalId m' = intervalId (fst s)"
proof (induction obs arbitrary: s)
  case Nil
  then show ?case by auto
next
  case (Cons ob obs)
  obtain t1 m1 w1 where p: "processTransaction cfg ob s = (t1, m1, w1)"
    by (metis prod_cases3)
  from processTransaction_fields [OF p] have f: "active m1 = active (fst s)"
    "consecutiveErrors m1 = consecutiveErrors (fst s)" "intervalId m1 = intervalId (fst s)"
    by simp_all
  show ?case
  proof (cases t1)
    case True
    with Cons.prems p f show ?thesis by auto
  next
    case False
    with Cons.prems p have "processAll cfg obs (m1, w1) = (t, m', w')" by simp
    from Cons.IH [OF this] f show ?thesis by simp
  qed
qed

lemma tryCycle_fields:
  "tryCycle cfg inp s = (t, m', w') \<Longrightarrow>
     active m' = active (fst s) \<and> intervalId m' = intervalId (fst s)
     \<and> consecutiveErrors m' = (if t then consecutiveErrors (fst s) else 0)"
  by (cases s) (auto simp: tryCycle_def split: outcome.splits option.splits if_splits prod.splits bool.splits
      dest!: processAll_fields)

lemma pollDeposits_inactive: "\<not> active (fst s) \<Longrightarrow> pollDeposits cfg i s = s"
  by (simp add: pollDeposits_def)

lemma runPolls_inactive: "\<not> active (fst s) \<Longrightarrow> runPolls cfg is s = s"
  by (induction "is") (simp_all add: pollDeposits_inactive)

lemma failed_cycle_counts:
  assumes "active (fst s)" and "fst (tryCycle cfg i s)"
  shows "consecutiveErrors (fst (pollDeposits cfg i s)) = consecutiveErrors (fst s) + 1
         \<and> (if consecutiveErrors (fst s) + 1 \<ge> 5
             then \<not> active (fst (pollDeposits cfg i s)) \<and> intervalId (fst (pollDeposits cfg i s)) = None
             else active (fst (pollDeposits cfg i s)))"
proof -
  obtain t m1 w1 where tc: "tryCycle cfg i s = (t, m1, w1)"
    by (metis prod_cases3)
  from tryCycle_fields [OF tc] assms tc have f: "t" "active m1"
    "consecutiveErrors m1 = consecutiveErrors (fst s)" by simp_all
  show ?thesis
    using assms(1) tc f
    by (simp add: pollDeposits_def Let_def stopPolling_def MAX_CONSECUTIVE_ERRORS_def)
qed

lemma failures_stop:
  "active (fst s) \<Longrightarrow> cyclesFail cfg is s \<Longrightarrow> consecutiveErrors (fst s) + length is = 5 \<Longrightarrow>
   consecutiveErrors (fst s) < 5 \<Longrightarrow>
   \<not> active (fst (runPolls cfg is s)) \<and> intervalId (fst (runPolls cfg is s)) = None"
proof (induction "is" arbitrary: s)
  case Nil
  then show ?case by simp
next
  case (Cons i "is")
  let ?s' = "pollDeposits cfg i s"
  from Cons.prems have fl: "fst (tryCycle cfg i s)" and rest: "cyclesFail cfg is ?s'" by simp_all
  note fc = failed_cycle_counts [OF Cons.prems(1) fl]
  show ?case
  proof (cases "consecutiveErrors (fst s) + 1 \<ge> 5")
    case True
    with fc have "\<not> active (fst ?s')" "intervalId (fst ?s') = None" by simp_all
    then show ?thesis by (simp add: runPolls_inactive)
  next
    case False
    with fc have a: "active (fst ?s')" by simp
    from fc Cons.prems(3) have l: "consecutiveErrors (fst ?s') + length is = 5" by simp
    from fc False have lt: "consecutiveErrors (fst ?s') < 5" by simp
    from Cons.IH [OF a rest l lt] show ?thesis by simp
  qed
qed

subsection \<open>Every credit has its persisted record\<close>

lemma processTransaction_skip:
  "tx_hash (obs_tx ob) \<in> processedTxHashes m \<or> (tx_hash (obs_tx ob), wallet_id cfg) \<in> set (db w) \<Longrightarrow>
   snd (snd (processTransaction cfg ob (m, w))) = w"
  by (auto simp: processTransaction_def Let_def)

lemma processTransaction_backed:
  "creditsBacked (snd s) \<Longrightarrow> creditsBacked (snd (snd (processTransaction cfg ob s)))"
  by (auto simp: processTransaction_def Let_def creditsBacked_def storeConfirmed_def
      broadcastPending_def creditKey_def list_all_iff split: outcome.splits option.splits)

lemma processAll_backed:
  "creditsBacked (snd s) \<Longrightarrow> creditsBacked (snd (snd (processAll cfg obs s)))"
proof (induction obs arbitrary: s)
  case Nil
  then show ?case by simp
next
  case (Cons ob obs)
  obtain t s1 where p: "processTransaction cfg ob s = (t, s1)" by (metis surj_pair)
  from processTransaction_backed [OF Cons.prems, of cfg ob] p have b: "creditsBacked (snd s1)" by simp
  show ?case
  proof (cases t)
    case True
    with p b show ?thesis by simp
  next
    case False
    with p Cons.IH [OF b] show ?thesis by simp
  qed
qed

lemma tryCycle_world:
  "snd (snd (tryCycle cfg inp s)) =
     (case inp of Returns (Some txs) \<Rightarrow> snd (snd (processAll cfg txs s)) | _ \<Rightarrow> snd s)"
  by (auto simp: tryCycle_def split: outcome.splits option.splits prod.splits bool.splits)

lemma tryCycle_backed:
  "creditsBacked (snd s) \<Longrightarrow> creditsBacked (snd (snd (tryCycle cfg inp s)))"
  by (simp add: tryCycle_world processAll_backed split: outcome.splits option.splits)

lemma pollDeposits_world:
  "snd (pollDeposits cfg inp s) = (if active (fst s) then snd (snd (tryCycle cfg inp s)) else snd s)"
  by (auto simp: pollDeposits_def Let_def split: prod.splits bool.splits)

lemma pollDeposits_backed:
  "creditsBacked (snd s) \<Longrightarrow> creditsBacked (snd (pollDeposits cfg inp s))"
  by (simp add: pollDeposits_world tryCycle_backed)

lemma runEvents_backed:
  "creditsBacked (snd s) \<Longrightarrow> creditsBacked (snd (runEvents cfg es s))"
proof (induction es arbitrary: s)
  case Nil
  then show ?case by simp
next
  case (Cons e es)
  then show ?case by (cases e) (simp_all add: pollDeposits_backed)
qed

lemma distinct_keys_at_most_one:
  "distinct (map f xs) \<Longrightarrow> length (filter (\<lambda>x. f x = k) xs) \<le> 1"
proof (induction xs)
  case Nil
  then show ?case by simp
next
  case (Cons x xs)
  show ?case
  proof (cases "f x = k")
    case True
    with Cons.prems have "k \<notin> f ` set xs" by simp
    then have "\<forall>y\<in>set xs. f y \<noteq> k" by blast
    then have "filter (\<lambda>y. f y = k) xs = []"
      by (simp add: filter_empty_conv)
    with True show ?thesis by simp
  next
    case False
    with Cons show ?thesis by simp
  qed
qed

subsection \<open>The claims\<close>

text \<open>
  Claim C1. A transaction whose hash is in \<open>processedTxHashes\<close>, or for which a
  persisted record with the monitor's wallet id exists, leaves the store and the event
  stream as they were: nothing is broadcast, credited or stored. Consequently, over any
  sequence of poll cycles and restarts, starting from a store in which every credit has
  its persisted record, at most one credit is stored for a hash and this wallet.
\<close>

theorem idempotent_crediting:
  assumes "creditsBacked w"
  shows "((tx_hash (obs_tx ob) \<in> processedTxHashes m \<or> (tx_hash (obs_tx ob), wallet_id cfg) \<in> set (db w))
            \<longrightarrow> snd (snd (processTransaction cfg ob (m, w))) = w)
         \<and> length (creditsFor (wallet_id cfg) h (snd (runEvents cfg es (m, w)))) \<le> 1"
proof -
  have "creditsBacked (snd (runEvents cfg es (m, w)))"
    using runEvents_backed [of "(m, w)" cfg es] assms by simp
  then have "distinct (map creditKey (credits (snd (runEvents cfg es (m, w)))))"
    by (simp add: creditsBacked_def)
  from distinct_keys_at_most_one [OF this, of "(h, wallet_id cfg)"]
  have "length (creditsFor (wallet_id cfg) h (snd (runEvents cfg es (m, w)))) \<le> 1"
    by (simp add: creditsFor_def creditKey_def)
  with processTransaction_skip [of ob m cfg w] show ?thesis by blast
qed

theorem idempotent_crediting_witness:
  "creditsBacked emptyWorld
   \<and> tx_hash (obs_tx (sighting ''h1'' 6)) \<in> processedTxHashes (newMonitor\<lparr> processedTxHashes := {''h1''} \<rparr>)
   \<and> snd (snd (processTransaction demoConfig (sighting ''h1'' 6)
         (newMonitor\<lparr> processedTxHashes := {''h1''} \<rparr>, emptyWorld))) = emptyWorld
   \<and> map cr_amount (creditsFor ''w1'' ''h1'' (snd (runEvents demoConfig
         [Poll (Returns (Some [sighting ''h1'' 6])), Restart,
          Poll (Returns (Some [sighting ''h1'' 7, sighting ''h1'' 7])),
          Poll (Returns (Some [sighting ''h1'' 8]))] (newMonitor, emptyWorld)))) = [1 / 2000]"
  using idempotent_crediting [of emptyWorld "sighting ''h1'' 6"
      "newMonitor\<lparr> processedTxHashes := {''h1''} \<rparr>" demoConfig "''h1''"
      "[Poll (Returns (Some [sighting ''h1'' 6])), Restart,
        Poll (Returns (Some [sighting ''h1'' 7, sighting ''h1'' 7])),
        Poll (Returns (Some [sighting ''h1'' 8]))]"]
  by (simp add: monitor_eval creditsBacked_def creditsFor_def)

text \<open>
  Claim C3. For a transaction below the required confirmations that is not skipped, the
  cycle hands a pending update to the broadcaster exactly when the fetched confirmation
  count differs from the value recorded in \<open>lastBroadcastedConfirmations\<close> (no recorded
  value counts as different); the update carries the fetched count. Six cycles that see
  the confirmations 0, 0, 1, 1, 2, 3 on a chain that requires six broadcast four times,
  for 0, 1, 2 and 3.
\<close>

theorem pending_broadcast_on_change:
  assumes "tx_hash (obs_tx ob) \<notin> processedTxHashes m"
    and "\<not> findOne_rejects ob"
    and "(tx_hash (obs_tx ob), wallet_id cfg) \<notin> set (db w)"
    and "confirmationsOf (obs_tx ob) < requiredConfirmations cfg"
  shows "broadcasts (snd (snd (processTransaction cfg ob (m, w)))) =
           (if lastBroadcastedConfirmations m (tx_hash (obs_tx ob)) = Some (confirmationsOf (obs_tx ob))
            then broadcasts w
            else broadcasts w @
              [\<lparr> pu_walletId = wallet_id cfg, pu_hash = tx_hash (obs_tx ob),
                 pu_amount = satoshiToStandardUnit cfg (valueOf (tx_value (obs_tx ob))),
                 pu_confirmations = confirmationsOf (obs_tx ob),
                 pu_requiredConfirmations = requiredConfirmations cfg \<rparr>])
         \<and> ((broadcasts (snd (snd (processTransaction cfg ob (m, w)))) \<noteq> broadcasts w)
              = (lastBroadcastedConfirmations m (tx_hash (obs_tx ob)) \<noteq> Some (confirmationsOf (obs_tx ob))))
         \<and> map pu_confirmations (broadcasts (snd (runPolls demoConfig
               (sightings ''h1'' [0, 0, 1, 1, 2, 3]) (newMonitor, emptyWorld)))) = [0, 1, 2, 3]"
proof -
  have run: "map pu_confirmations (broadcasts (snd (runPolls demoConfig
               (sightings ''h1'' [0, 0, 1, 1, 2, 3]) (newMonitor, emptyWorld)))) = [0, 1, 2, 3]"
    by (simp add: monitor_eval)
  from assms show ?thesis
    by (simp add: run) (simp add: processTransaction_def Let_def broadcastPending_def)
qed

theorem pending_broadcast_on_change_witness:
  "tx_hash (obs_tx (sighting ''h1'' 2)) \<notin> processedTxHashes newMonitor
   \<and> \<not> findOne_rejects (sighting ''h1'' 2)
   \<and> (tx_hash (obs_tx (sighting ''h1'' 2)), wallet_id demoConfig) \<notin> set (db emptyWorld)
   \<and> confirmationsOf (obs_tx (sighting ''h1'' 2)) < requiredConfirmations demoConfig
   \<and> map pu_confirmations (broadcasts (snd (snd (processTransaction demoConfig (sighting ''h1'' 2)
         (newMonitor, emptyWorld))))) = [2]
   \<and> broadcasts (snd (snd (processTransaction demoConfig (sighting ''h1'' 2)
         (newMonitor\<lparr> lastBroadcastedConfirmations := (\<lambda>_. None)(''h1'' := Some 2) \<rparr>, emptyWorld)))) = []"
  using pending_broadcast_on_change [of "sighting ''h1'' 2" newMonitor demoConfig emptyWorld]
  by (simp add: monitor_eval)

text \<open>
  Claim C6. Five consecutive failed cycles of an active monitor that starts with no
  recorded errors stop it: \<open>active\<close> is false and the timer is cleared; every later
  cycle, and a later call of \<open>watchDeposits\<close>, changes nothing.
\<close>

theorem fail_stop:
  assumes "active m" and "consecutiveErrors m = 0" and "length is = 5"
    and "cyclesFail cfg is (m, w)"
  shows "\<not> active (fst (runPolls cfg is (m, w)))
         \<and> intervalId (fst (runPolls cfg is (m, w))) = None
         \<and> runPolls cfg later (runPolls cfg is (m, w)) = runPolls cfg is (m, w)
         \<and> watchDeposits cfg i (runPolls cfg is (m, w)) = runPolls cfg is (m, w)"
proof -
  have "\<not> active (fst (runPolls cfg is (m, w))) \<and> intervalId (fst (runPolls cfg is (m, w))) = None"
    using failures_stop [of "(m, w)" cfg "is"] assms by simp
  then show ?thesis
    by (simp add: runPolls_inactive watchDeposits_def)
qed

theorem fail_stop_witness:
  "active newMonitor \<and> consecutiveErrors newMonitor = 0
   \<and> length [Throws, Throws, Throws, Throws, Throws :: poll_input] = 5
   \<and> cyclesFail demoConfig [Throws, Throws, Throws, Throws, Throws] (newMonitor, emptyWorld)
   \<and> \<not> active (fst (runPolls demoConfig [Throws, Throws, Throws, Throws, Throws] (newMonitor, emptyWorld)))
   \<and> active (fst (runPolls demoConfig [Throws, Throws, Throws, Throws] (newMonitor, emptyWorld)))"
  using fail_stop [of newMonitor "[Throws, Throws, Throws, Throws, Throws]" demoConfig emptyWorld "[]" Throws]
  by (simp add: pollDeposits_def newMonitor_def tryCycle_def MAX_CONSECUTIVE_ERRORS_def
      nextInterval_def POLLING_INTERVAL_def stopPolling_def)

text \<open>
  Claim C7, as amended. After a cycle that leaves the monitor active, the timer is armed
  with the base interval of 30000 ms when no error is recorded and with
  \<open>min (30000 * 2 ^ (n - 1)) 300000\<close> when \<open>n\<close> consecutive errors are; \<open>n\<close> stays
  below 5.
\<close>

theorem backoff_delay:
  assumes "active m" and "pollDeposits cfg inp (m, w) = (m', w')" and "active m'"
  shows "consecutiveErrors m' < 5 \<and>
         intervalId m' = Some (if consecutiveErrors m' = 0 then 30000
                               else min (30000 * 2 ^ (consecutiveErrors m' - 1)) 300000)"
proof -
  obtain t m1 w1 where tc: "tryCycle cfg inp (m, w) = (t, m1, w1)"
    by (metis prod_cases3)
  from tryCycle_fields [OF tc] have f: "active m1 = active m"
    "consecutiveErrors m1 = (if t then consecutiveErrors m else 0)" by simp_all
  show ?thesis
    using assms tc f
    by (cases t) (auto simp: pollDeposits_def Let_def stopPolling_def nextInterval_def
        POLLING_INTERVAL_def MAX_CONSECUTIVE_ERRORS_def split: if_splits)
qed

theorem backoff_delay_witness:
  "active newMonitor \<and> consecutiveErrors (fst (pollDeposits demoConfig Throws (newMonitor, emptyWorld))) = 1
   \<and> intervalId (fst (pollDeposits demoConfig Throws (newMonitor, emptyWorld))) = Some 30000"
  using backoff_delay [of newMonitor demoConfig Throws emptyWorld
      "fst (pollDeposits demoConfig Throws (newMonitor, emptyWorld))"
      "snd (pollDeposits demoConfig Throws (newMonitor, emptyWorld))"]
  by (simp add: pollDeposits_def newMonitor_def tryCycle_def MAX_CONSECUTIVE_ERRORS_def
      nextInterval_def POLLING_INTERVAL_def)

text \<open>
  The claim as stated doubles once more: after the first failed cycle the delay would be
  \<open>min (30000 * 2 ^ 1) 300000\<close>. The monitor waits 30000 ms.
\<close>

theorem backoff_doubling_counterexample:
  "consecutiveErrors (fst (pollDeposits demoConfig Throws (newMonitor, emptyWorld))) = 1
   \<and> intervalId (fst (pollDeposits demoConfig Throws (newMonitor, emptyWorld)))
       \<noteq> Some (min (POLLING_INTERVAL * 2 ^ 1) 300000)"
  by (simp add: pollDeposits_def newMonitor_def tryCycle_def MAX_CONSECUTIVE_ERRORS_def
      nextInterval_def POLLING_INTERVAL_def)


section \<open>Properties of withdrawals\<close>

lemmas number_eval = countDecimals_def isInteger_def toString_def natString_def digitChar_def
  splitStr_def parseInt_def isDigit_def digitValue_def decimalPlaces_def canonical_def
  magnitude_def numberValue_def mathAbs_def amountOf_def tinyAmount_def Let_def

lemma checks_alice:
  assumes "countDecimals amt = Some d" and "d \<le> 8"
  shows "withdrawalChecks demoServices demoLedger ''alice'' ''BTC'' ''BTC'' amt ''external''
           = Inr (aliceWallet, max (numberValue amt * (1 / 2) / 100) (1 / 10000))"
  using assms
  by (simp add: withdrawalChecks_def chainFees_def exceedsPrecision_def maxPrecision_def
      withdrawalFeeOf_def calculateWithdrawalFee_def findUserWallet_def btcToken_def
      demoServices_def aliceWallet_def bobWallet_def demoLedger_def)

lemma storeWithdrawal_error_keeps_ledger:
  "fst (storeWithdrawal env l userId currency chn amount toAddress) = Inl e \<Longrightarrow>
   snd (storeWithdrawal env l userId currency chn amount toAddress) = l"
  by (auto simp: storeWithdrawal_def Let_def split: sum.splits prod.splits if_splits)

lemma find_first_match: "find P xs = Some x \<Longrightarrow> P x \<and> x \<in> set xs"
  by (induction xs) (auto split: if_splits)

lemma findWalletByAddress_Some:
  assumes "list_ex (\<lambda>w. w_type w = ''ECO'' \<and> hasAddress a w) ws"
  shows "\<exists>rw. findWalletByAddress a ws = Some rw \<and> rw \<in> set ws \<and> w_type rw = ''ECO''
              \<and> hasAddress a rw"
proof -
  from assms have "\<exists>w \<in> set (filter (\<lambda>w. w_type w = ''ECO'') ws). hasAddress a w"
    by (auto simp: list_ex_iff)
  then have "find (hasAddress a) (filter (\<lambda>w. w_type w = ''ECO'') ws) \<noteq> None"
    by (simp add: find_None_iff)
  then obtain rw where f: "find (hasAddress a) (filter (\<lambda>w. w_type w = ''ECO'') ws) = Some rw"
    by blast
  from find_first_match [OF f]
  have "hasAddress a rw" "rw \<in> set (filter (\<lambda>w. w_type w = ''ECO'') ws)"
    by blast+
  with f show ?thesis
    by (auto simp: findWalletByAddress_def)
qed

text \<open>
  The two amounts of the precision example: 1.123456789 has nine decimal places and is over
  a precision of 8, 1.12345678 has eight and is not.
\<close>

lemma precision_examples:
  "countDecimals (amountOf 1123456789 (- 9)) = Some 9
   \<and> toString (amountOf 1123456789 (- 9)) = ''1.123456789''
   \<and> exceedsPrecision (amountOf 1123456789 (- 9)) btcToken
   \<and> countDecimals (amountOf 112345678 (- 8)) = Some 8
   \<and> toString (amountOf 112345678 (- 8)) = ''1.12345678''
   \<and> \<not> exceedsPrecision (amountOf 112345678 (- 8)) btcToken"
proof -
  have a: "countDecimals (amountOf 1123456789 (- 9)) = Some 9"
    by (simp add: number_eval)
  have b: "countDecimals (amountOf 112345678 (- 8)) = Some 8"
    by (simp add: number_eval)
  have "toString (amountOf 1123456789 (- 9)) = ''1.123456789''"
    "toString (amountOf 112345678 (- 8)) = ''1.12345678''"
    by (simp_all add: number_eval)
  with a b show ?thesis
    by (simp add: exceedsPrecision_def maxPrecision_def btcToken_def)
qed

subsection \<open>\<open>countDecimals\<close> against the decimal places\<close>

lemma natDigits_small: "\<forall>d \<in> set (natDigits n). d < 10"
proof (induction n rule: natDigits.induct)
  case (1 n)
  show ?case
  proof (cases "n < 10")
    case True
    then show ?thesis by (simp add: natDigits.simps [of n] del: natDigits.simps)
  next
    case False
    with 1 show ?thesis by (auto simp add: natDigits.simps [of n] simp del: natDigits.simps)
  qed
qed

lemma digitChar_isDigit: "d < 10 \<Longrightarrow> isDigit (digitChar d)"
proof -
  assume "d < 10"
  then have "d \<in> {0, 1, 2, 3, 4, 5, 6, 7, 8, 9}" by auto
  then show ?thesis
    by (auto simp: isDigit_def digitChar_def)
qed

lemma natString_digits: "\<forall>c \<in> set (natString n). isDigit c"
  using natDigits_small [of n]
  by (auto simp add: natString_def digitChar_isDigit simp del: natDigits.simps)

lemma isDigit_not_dot: "isDigit c \<Longrightarrow> c \<noteq> CHR ''.'' \<and> c \<noteq> CHR ''e''"
  by (auto simp: isDigit_def)

lemma no_e_not_included: "CHR ''e'' \<notin> set s \<Longrightarrow> \<not> includesStr s ''e-''"
  by (induction s) auto

lemma splitFrom_no_dot:
  "CHR ''.'' \<notin> set s \<Longrightarrow> splitFrom ''.'' acc s = [acc @ s]"
proof (induction s arbitrary: acc)
  case Nil
  show ?case by (subst splitFrom.simps) simp
next
  case (Cons c cs)
  then have "c \<noteq> CHR ''.''" "CHR ''.'' \<notin> set cs" by auto
  with Cons.IH [of "acc @ [c]"] show ?case
    by (subst splitFrom.simps) (simp del: splitFrom.simps)
qed

lemma splitFrom_one_dot:
  "CHR ''.'' \<notin> set a \<Longrightarrow> CHR ''.'' \<notin> set b \<Longrightarrow>
   splitFrom ''.'' acc (a @ ''.'' @ b) = [acc @ a, b]"
proof (induction a arbitrary: acc)
  case Nil
  then show ?case
    by (subst splitFrom.simps) (simp add: splitFrom_no_dot del: splitFrom.simps)
next
  case (Cons c cs)
  then have "c \<noteq> CHR ''.''" "CHR ''.'' \<notin> set cs" by auto
  with Cons.IH [of "acc @ [c]"] Cons.prems(2) show ?case
    by (subst splitFrom.simps) (simp del: splitFrom.simps)
qed

lemma ten_power_mod:
  assumes "d mod 10 \<noteq> (0::nat)" and "0 < m"
  shows "d mod 10 ^ m \<noteq> 0"
proof
  assume "d mod 10 ^ m = 0"
  then have "10 ^ m dvd d" by auto
  moreover from assms(2) have "(10::nat) dvd 10 ^ m" by (cases m) simp_all
  ultimately have "10 dvd d" by (rule dvd_trans [rotated])
  with assms(1) show False by auto
qed

lemma toString_point_inside:
  assumes "digits x \<noteq> 0" and "\<not> neg x" and "exp10 x < 0"
    and "0 < exp10 x + int (length (natString (digits x)))"
    and "exp10 x + int (length (natString (digits x))) \<le> 21"
  shows "toString x = take (nat (exp10 x + int (length (natString (digits x))))) (natString (digits x))
           @ ''.'' @ drop (nat (exp10 x + int (length (natString (digits x))))) (natString (digits x))"
proof -
  define ds where "ds = natString (digits x)"
  define n where "n = exp10 x + int (length ds)"
  have c1: "\<not> (int (length ds) \<le> n \<and> n \<le> 21)"
    using assms(3) by (simp add: n_def)
  have c2: "0 < n \<and> n \<le> 21"
    using assms(4,5) by (simp add: n_def ds_def)
  have "toString x = take (nat n) ds @ ''.'' @ drop (nat n) ds"
    unfolding toString_def Let_def ds_def [symmetric] n_def [symmetric]
    using assms(1,2) c1 c2 by (simp only: if_False if_True append_Nil simp_thms)
  then show ?thesis
    by (simp only: n_def ds_def)
qed

lemma toString_leading_zeros:
  assumes "digits x \<noteq> 0" and "\<not> neg x" and "exp10 x < 0"
    and "- 6 < exp10 x + int (length (natString (digits x)))"
    and "\<not> 0 < exp10 x + int (length (natString (digits x)))"
  shows "toString x = ''0.'' @ replicate (nat (- (exp10 x + int (length (natString (digits x))))))
           (CHR ''0'') @ natString (digits x)"
proof -
  define ds where "ds = natString (digits x)"
  define n where "n = exp10 x + int (length ds)"
  have c1: "\<not> (int (length ds) \<le> n \<and> n \<le> 21)"
    using assms(3) by (simp add: n_def)
  have c2: "\<not> (0 < n \<and> n \<le> 21)"
    using assms(5) by (simp add: n_def ds_def)
  have c3: "- 6 < n \<and> n \<le> 0"
    using assms(4,5) by (simp add: n_def ds_def)
  have "toString x = ''0.'' @ replicate (nat (- n)) (CHR ''0'') @ ds"
    unfolding toString_def Let_def ds_def [symmetric] n_def [symmetric]
    using assms(1,2) c1 c2 c3 by (simp only: if_False if_True append_Nil simp_thms)
  then show ?thesis
    by (simp only: n_def ds_def)
qed

text \<open>
  For a non-integer amount that prints without exponent (its decimal point is at most five
  zeros to the left of its first digit), \<open>countDecimals\<close> is the number of decimal places.
\<close>

lemma countDecimals_plain_notation:
  assumes "canonical x" and "\<not> neg x" and "exp10 x < 0" and "digits x \<noteq> 0"
    and "- 6 < exp10 x + int (length (natString (digits x)))"
    and "exp10 x + int (length (natString (digits x))) \<le> 21"
  shows "countDecimals x = Some (decimalPlaces x)"
proof -
  let ?ds = "natString (digits x)"
  let ?n = "exp10 x + int (length ?ds)"
  have dig: "\<forall>c \<in> set ?ds. c \<noteq> CHR ''.'' \<and> c \<noteq> CHR ''e''"
    using natString_digits [of "digits x"] isDigit_not_dot by blast
  from assms(1,4) have "digits x mod 10 \<noteq> 0"
    by (simp add: canonical_def)
  with assms(3) have ni: "\<not> isInteger x"
    by (simp add: isInteger_def ten_power_mod)
  have dp: "decimalPlaces x = nat (- exp10 x)"
    using assms(3,4) by (simp add: decimalPlaces_def)
  have "\<exists>a b. toString x = a @ ''.'' @ b \<and> CHR ''.'' \<notin> set a \<and> CHR ''e'' \<notin> set a
           \<and> CHR ''.'' \<notin> set b \<and> CHR ''e'' \<notin> set b \<and> length b = nat (- exp10 x)"
  proof (cases "0 < ?n")
    case True
    let ?a = "take (nat ?n) ?ds" and ?b = "drop (nat ?n) ?ds"
    have a: "CHR ''.'' \<notin> set ?a" "CHR ''e'' \<notin> set ?a"
      using dig in_set_takeD [of _ "nat ?n" ?ds] by blast+
    have b: "CHR ''.'' \<notin> set ?b" "CHR ''e'' \<notin> set ?b"
      using dig in_set_dropD [of _ "nat ?n" ?ds] by blast+
    have l: "length ?b = nat (- exp10 x)"
      using True assms(3) by simp
    have t: "toString x = ?a @ ''.'' @ ?b"
      by (rule toString_point_inside [OF assms(4,2,3) True assms(6)])
    show ?thesis
      by (rule exI [of _ ?a], rule exI [of _ ?b]) (intro conjI t a b l)
  next
    case False
    let ?a = "''0''" and ?b = "replicate (nat (- ?n)) (CHR ''0'') @ ?ds"
    have a: "CHR ''.'' \<notin> set ?a" "CHR ''e'' \<notin> set ?a"
      by simp_all
    have b: "CHR ''.'' \<notin> set ?b" "CHR ''e'' \<notin> set ?b"
      using dig by auto
    have l: "length ?b = nat (- exp10 x)"
      using False by simp
    have t: "toString x = ?a @ ''.'' @ ?b"
      using toString_leading_zeros [OF assms(4,2,3,5) False] by simp
    show ?thesis
      by (rule exI [of _ ?a], rule exI [of _ ?b]) (intro conjI t a b l)
  qed
  then obtain a b where t: "toString x = a @ ''.'' @ b"
    and sa: "CHR ''.'' \<notin> set a" "CHR ''e'' \<notin> set a"
    and sb: "CHR ''.'' \<notin> set b" "CHR ''e'' \<notin> set b"
    and lb: "length b = nat (- exp10 x)"
    by blast
  have "CHR ''e'' \<notin> set (toString x)"
    unfolding t using sa sb by simp
  then have ne: "\<not> includesStr (toString x) ''e-''"
    by (rule no_e_not_included)
  have sp: "splitStr (toString x) ''.'' = [a, b]"
    unfolding t splitStr_def using splitFrom_one_dot [OF sa(1) sb(1), of "[]"]
    by (simp del: splitFrom.simps)
  show ?thesis
    unfolding countDecimals_def Let_def sp dp using ni ne lb
    by (simp only: if_False list.case simp_thms)
qed

lemma natDigits_nonempty: "natDigits n \<noteq> []"
  by (subst natDigits.simps) (simp del: natDigits.simps)

lemma natDigits_value: "foldl (\<lambda>v d. 10 * v + d) 0 (natDigits n) = n"
proof (induction n rule: natDigits.induct)
  case (1 n)
  show ?case
  proof (cases "n < 10")
    case True
    then show ?thesis
      by (subst natDigits.simps) (simp del: natDigits.simps)
  next
    case False
    with 1 show ?thesis
      by (subst natDigits.simps) (simp del: natDigits.simps)
  qed
qed

lemma digitValue_digitChar: "d < 10 \<Longrightarrow> digitValue (digitChar d) = d"
proof -
  assume "d < 10"
  then have "d \<in> {0, 1, 2, 3, 4, 5, 6, 7, 8, 9}" by auto
  then show ?thesis
    by (auto simp: digitValue_def digitChar_def)
qed

lemma foldl_digit_chars:
  "\<forall>d \<in> set ds. d < 10 \<Longrightarrow>
   foldl (\<lambda>v c. 10 * v + digitValue c) acc (map digitChar ds) = foldl (\<lambda>v d. 10 * v + d) acc ds"
  by (induction ds arbitrary: acc) (simp_all add: digitValue_digitChar)

lemma parseInt_natString: "parseInt (natString m) = Some m"
proof -
  have tw: "takeWhile isDigit (natString m) = natString m"
    using natString_digits [of m] by (simp add: takeWhile_eq_all_conv)
  have ne: "natString m \<noteq> []"
    by (simp add: natString_def natDigits_nonempty del: natDigits.simps)
  have fv: "foldl (\<lambda>v c. 10 * v + digitValue c) 0 (natString m) = m"
    unfolding natString_def
    using foldl_digit_chars [OF natDigits_small, of 0 m] natDigits_value [of m] by simp
  show ?thesis
    unfolding parseInt_def Let_def tw fv using ne by (simp only: if_False)
qed

lemma includes_e_minus: "includesStr (a @ ''e-'' @ b) ''e-''"
  by (induction a) simp_all

lemma splitFrom_no_e:
  "CHR ''e'' \<notin> set s \<Longrightarrow> splitFrom ''e-'' acc s = [acc @ s]"
proof (induction s arbitrary: acc)
  case Nil
  show ?case by (subst splitFrom.simps) simp
next
  case (Cons c cs)
  then have "c \<noteq> CHR ''e''" "CHR ''e'' \<notin> set cs" by auto
  with Cons.IH [of "acc @ [c]"] show ?case
    by (subst splitFrom.simps) (auto simp del: splitFrom.simps)
qed

lemma splitFrom_one_e_minus:
  "CHR ''e'' \<notin> set a \<Longrightarrow> CHR ''e'' \<notin> set b \<Longrightarrow>
   splitFrom ''e-'' acc (a @ ''e-'' @ b) = [acc @ a, b]"
proof (induction a arbitrary: acc)
  case Nil
  then show ?case
    by (subst splitFrom.simps) (simp add: splitFrom_no_e del: splitFrom.simps)
next
  case (Cons c cs)
  then have "c \<noteq> CHR ''e''" "CHR ''e'' \<notin> set cs" by auto
  with Cons.IH [of "acc @ [c]"] Cons.prems(2) show ?case
    by (subst splitFrom.simps) (auto simp del: splitFrom.simps)
qed

lemma toString_exponent:
  assumes "digits x \<noteq> 0" and "\<not> neg x"
    and "exp10 x + int (length (natString (digits x))) \<le> - 6"
  shows "toString x =
           (if length (natString (digits x)) = 1 then natString (digits x)
            else take 1 (natString (digits x)) @ ''.'' @ drop 1 (natString (digits x)))
           @ ''e-'' @ natString (nat (1 - (exp10 x + int (length (natString (digits x))))))"
proof -
  define ds where "ds = natString (digits x)"
  define n where "n = exp10 x + int (length ds)"
  have c1: "\<not> (int (length ds) \<le> n \<and> n \<le> 21)" "\<not> (0 < n \<and> n \<le> 21)"
    "\<not> (- 6 < n \<and> n \<le> 0)" "n - 1 < 0" "nat \<bar>n - 1\<bar> = nat (1 - n)"
    "(int (length ds) = 1) = (length ds = 1)"
    using assms(3) by (auto simp: n_def ds_def)
  have "toString x = (if length ds = 1 then ds else take 1 ds @ ''.'' @ drop 1 ds)
          @ ''e-'' @ natString (nat (1 - n))"
    unfolding toString_def Let_def ds_def [symmetric] n_def [symmetric]
    using assms(1,2) c1
    by (simp only: if_False if_True append_Nil simp_thms) simp
  then show ?thesis
    by (simp only: n_def ds_def)
qed

text \<open>
  In exponent notation, that is for a non-zero amount below 0.000001, \<open>countDecimals\<close>
  returns the exponent: it is short of the decimal places by the number of digits after
  the first.
\<close>

lemma countDecimals_exponent_notation:
  assumes "canonical x" and "\<not> neg x" and "digits x \<noteq> 0"
    and "exp10 x + int (length (natString (digits x))) \<le> - 6"
  shows "countDecimals x = Some (decimalPlaces x - (length (natString (digits x)) - 1))"
proof -
  let ?ds = "natString (digits x)"
  let ?n = "exp10 x + int (length ?ds)"
  let ?a = "if length ?ds = 1 then ?ds else take 1 ?ds @ ''.'' @ drop 1 ?ds"
  let ?b = "natString (nat (1 - ?n))"
  have dig: "\<forall>c \<in> set ?ds. c \<noteq> CHR ''e''"
    using natString_digits [of "digits x"] isDigit_not_dot by blast
  have k: "?ds \<noteq> []"
    by (simp add: natString_def natDigits_nonempty del: natDigits.simps)
  then have k1: "1 \<le> length ?ds"
    by (cases ?ds) simp_all
  with assms(4) have e: "exp10 x < 0" by simp
  from assms(1,3) have "digits x mod 10 \<noteq> 0"
    by (simp add: canonical_def)
  with e have ni: "\<not> isInteger x"
    by (simp add: isInteger_def ten_power_mod)
  have dp: "decimalPlaces x - (length ?ds - 1) = nat (1 - ?n)"
    using e assms(3) k1 by (simp add: decimalPlaces_def)
  have t: "toString x = ?a @ ''e-'' @ ?b"
    by (rule toString_exponent [OF assms(3,2,4)])
  have sa: "CHR ''e'' \<notin> set ?a"
    using dig in_set_takeD [of _ 1 ?ds] in_set_dropD [of _ 1 ?ds] by auto
  have sb: "CHR ''e'' \<notin> set ?b"
    using natString_digits [of "nat (1 - ?n)"] isDigit_not_dot by blast
  have inc: "includesStr (toString x) ''e-''"
    unfolding t by (rule includes_e_minus)
  have sp: "splitStr (toString x) ''e-'' = [?a, ?b]"
    unfolding t splitStr_def using splitFrom_one_e_minus [OF sa sb, of "[]"]
    by (simp del: splitFrom.simps)
  show ?thesis
    unfolding countDecimals_def Let_def sp dp using ni inc
    by (simp only: if_False if_True list.case simp_thms parseInt_natString)
qed

text \<open>
  So the precision check compares the true number of decimal places whenever the amount
  prints without exponent.
\<close>

lemma exceedsPrecision_plain_notation:
  assumes "canonical x" and "\<not> neg x" and "exp10 x < 0" and "digits x \<noteq> 0"
    and "- 6 < exp10 x + int (length (natString (digits x)))"
    and "exp10 x + int (length (natString (digits x))) \<le> 21"
  shows "exceedsPrecision x tok = (decimalPlaces x > maxPrecision tok)"
  by (simp add: exceedsPrecision_def countDecimals_plain_notation [OF assms])

subsection \<open>The balance comparison of \<open>storeWithdrawal\<close>\<close>

text \<open>
  What the comparison at the end of the checks does: with the wallet and the total fee
  that the checks give, a balance below amount plus total fee ends in
  \<open>Insufficient funds\<close> with the ledger as it was, and any other balance is debited.
  The comparison reads \<open>balance\<close> and not \<open>inOrder\<close>.
\<close>

lemma storeWithdrawal_balance_guard:
  assumes "withdrawalChecks env l userId currency chn amount toAddress = Inr (userWallet, totalFee)"
  shows "(if balance userWallet < numberValue amount + totalFee
          then storeWithdrawal env l userId currency chn amount toAddress
                 = (Inl (Error ''Insufficient funds''), l)
          else (\<exists>r. fst (storeWithdrawal env l userId currency chn amount toAddress) = Inr r
                    \<and> res_balance r = balance userWallet - (numberValue amount + totalFee)
                    \<and> 0 \<le> res_balance r)
               \<and> wallets (snd (storeWithdrawal env l userId currency chn amount toAddress))
                   = decrementWalletBalance userWallet (numberValue amount + totalFee) (wallets l))
         \<and> (list_all (\<lambda>w. 0 \<le> balance w) (wallets l) \<longrightarrow>
              list_all (\<lambda>w. 0 \<le> balance w)
                (wallets (snd (storeWithdrawal env l userId currency chn amount toAddress))))"
  using assms
  by (auto simp: storeWithdrawal_def Let_def decrementWalletBalance_def list_all_iff)

text \<open>A withdrawal of 100.5 from a balance of 100 is refused.\<close>

lemma storeWithdrawal_balance_guard_example:
  "withdrawalChecks demoServices demoLedger ''alice'' ''BTC'' ''BTC'' (amountOf 1005 (- 1)) ''external''
     = Inr (aliceWallet, 201 / 400)
   \<and> balance aliceWallet < numberValue (amountOf 1005 (- 1)) + 201 / 400
   \<and> storeWithdrawal demoServices demoLedger ''alice'' ''BTC'' ''BTC'' (amountOf 1005 (- 1)) ''external''
       = (Inl (Error ''Insufficient funds''), demoLedger)"
proof -
  have c: "countDecimals (amountOf 1005 (- 1)) = Some 1"
    by (simp add: number_eval)
  have v: "numberValue (amountOf 1005 (- 1)) = 201 / 2"
    by (simp add: number_eval)
  have ok: "withdrawalChecks demoServices demoLedger ''alice'' ''BTC'' ''BTC'' (amountOf 1005 (- 1)) ''external''
     = Inr (aliceWallet, 201 / 400)"
    using checks_alice [OF c] by (simp add: v)
  have b: "balance aliceWallet < numberValue (amountOf 1005 (- 1)) + 201 / 400"
    by (simp add: v aliceWallet_def)
  from storeWithdrawal_balance_guard [OF ok] b ok show ?thesis by simp
qed

subsection \<open>The claims\<close>

text \<open>
  Claim C2 at a wallet with a balance of 100 of which 50 are in orders, asked for 60 with a
  total fee of 0.3. The available balance, balance minus \<open>inOrder\<close>, is 50 and below the
  60.3 required, so the withdrawal is to fail with insufficient funds and leave the ledger
  alone. \<open>storeWithdrawal\<close> compares \<open>balance\<close> alone: it does not fail, debits the
  wallet to 39.7, below the 50 held in orders, and queues the transaction.
\<close>

theorem withdrawal_spends_funds_in_order:
  "withdrawalChecks demoServices demoLedger ''alice'' ''BTC'' ''BTC'' (amountOf 6 1) ''external''
     = Inr (aliceWallet, 3 / 10)
   \<and> availableBalance aliceWallet = 50
   \<and> availableBalance aliceWallet < numberValue (amountOf 6 1) + 3 / 10
   \<and> fst (storeWithdrawal demoServices demoLedger ''alice'' ''BTC'' ''BTC'' (amountOf 6 1) ''external'')
       \<noteq> Inl (Error ''Insufficient funds'')
   \<and> map balance (wallets (snd (storeWithdrawal demoServices demoLedger ''alice'' ''BTC'' ''BTC''
         (amountOf 6 1) ''external''))) = [397 / 10, 3]
   \<and> queue (snd (storeWithdrawal demoServices demoLedger ''alice'' ''BTC'' ''BTC''
         (amountOf 6 1) ''external'')) = [0]"
proof -
  have c: "countDecimals (amountOf 6 1) = Some 0"
    by (simp add: number_eval)
  have v: "numberValue (amountOf 6 1) = 60"
    by (simp add: number_eval)
  have ok: "withdrawalChecks demoServices demoLedger ''alice'' ''BTC'' ''BTC'' (amountOf 6 1) ''external''
     = Inr (aliceWallet, 3 / 10)"
    using checks_alice [OF c] by (simp add: v)
  have a: "availableBalance aliceWallet = 50"
    by (simp add: availableBalance_def aliceWallet_def)
  have b: "availableBalance aliceWallet < numberValue (amountOf 6 1) + 3 / 10"
    by (simp add: v a)
  have f: "fst (storeWithdrawal demoServices demoLedger ''alice'' ''BTC'' ''BTC'' (amountOf 6 1) ''external'')
       \<noteq> Inl (Error ''Insufficient funds'')"
    by (simp only: storeWithdrawal_def ok sum.case prod.case)
      (simp add: v aliceWallet_def Let_def)
  have w: "map balance (wallets (snd (storeWithdrawal demoServices demoLedger ''alice'' ''BTC'' ''BTC''
         (amountOf 6 1) ''external''))) = [397 / 10, 3]"
    by (simp only: storeWithdrawal_def ok sum.case prod.case)
      (simp add: v decrementWalletBalance_def createPendingTransaction_def
        demoLedger_def aliceWallet_def bobWallet_def Let_def)
  have q: "queue (snd (storeWithdrawal demoServices demoLedger ''alice'' ''BTC'' ''BTC''
         (amountOf 6 1) ''external'')) = [0]"
    by (simp only: storeWithdrawal_def ok sum.case prod.case)
      (simp add: v decrementWalletBalance_def createPendingTransaction_def
        demoLedger_def aliceWallet_def bobWallet_def Let_def)
  from ok a b f w q show ?thesis by simp
qed

text \<open>
  Claim C4. The service fee is the larger of amount times percentage over 100 and the
  minimum fee; for 1000 at 0.5 percent with minimum 2 it is 5, for 100 it is 2.
\<close>

theorem service_fee:
  "calculateWithdrawalFee amount pct m = max (amount * pct / 100) m
   \<and> withdrawalFeeOf (tok\<lparr> fee := Some \<lparr> percentage = Some pct, fee_min = Some m \<rparr> \<rparr>) amount
       = max (amount * pct / 100) m
   \<and> calculateWithdrawalFee 1000 (1 / 2) 2 = 5
   \<and> calculateWithdrawalFee 100 (1 / 2) 2 = 2"
  by (simp add: calculateWithdrawalFee_def withdrawalFeeOf_def)

text \<open>
  Claim C5 at the amount 0.000000123 on a token with precision 8. The amount has nine
  decimal places, its string is \<open>1.23e-7\<close>, and \<open>countDecimals\<close> returns the exponent 7:
  the withdrawal passes the precision check, the wallet is debited and the transaction is
  queued.
\<close>

theorem precision_check_misses_exponent_notation:
  "canonical tinyAmount
   \<and> numberValue tinyAmount = 123 / 1000000000
   \<and> decimalPlaces tinyAmount = 9
   \<and> maxPrecision btcToken = 8
   \<and> toString tinyAmount = ''1.23e-7''
   \<and> countDecimals tinyAmount = Some 7
   \<and> \<not> exceedsPrecision tinyAmount btcToken
   \<and> map balance (wallets (snd (storeWithdrawal demoServices demoLedger ''alice'' ''BTC'' ''BTC''
          tinyAmount ''external''))) = [100 - 100123 / 1000000000, 3]
   \<and> queue (snd (storeWithdrawal demoServices demoLedger ''alice'' ''BTC'' ''BTC''
          tinyAmount ''external'')) = [0]"
proof -
  have c: "countDecimals tinyAmount = Some 7"
    by (simp add: number_eval)
  have v: "numberValue tinyAmount = 123 / 1000000000"
    by (simp add: number_eval)
  have ok: "withdrawalChecks demoServices demoLedger ''alice'' ''BTC'' ''BTC'' tinyAmount ''external''
              = Inr (aliceWallet, 1 / 10000)"
    by (simp add: withdrawalChecks_def chainFees_def exceedsPrecision_def maxPrecision_def
        withdrawalFeeOf_def calculateWithdrawalFee_def findUserWallet_def btcToken_def
        demoServices_def aliceWallet_def bobWallet_def demoLedger_def c v)
  have w: "map balance (wallets (snd (storeWithdrawal demoServices demoLedger ''alice'' ''BTC'' ''BTC''
          tinyAmount ''external''))) = [100 - 100123 / 1000000000, 3]"
    by (simp only: storeWithdrawal_def ok sum.case prod.case)
      (simp add: v decrementWalletBalance_def createPendingTransaction_def
        demoLedger_def aliceWallet_def bobWallet_def Let_def)
  have q: "queue (snd (storeWithdrawal demoServices demoLedger ''alice'' ''BTC'' ''BTC''
          tinyAmount ''external'')) = [0]"
    by (simp only: storeWithdrawal_def ok sum.case prod.case)
      (simp add: v decrementWalletBalance_def createPendingTransaction_def
        demoLedger_def aliceWallet_def bobWallet_def Let_def)
  have "canonical tinyAmount" "decimalPlaces tinyAmount = 9" "toString tinyAmount = ''1.23e-7''"
    by (simp_all add: number_eval)
  moreover have "maxPrecision btcToken = 8" "\<not> exceedsPrecision tinyAmount btcToken"
    by (simp_all add: exceedsPrecision_def c maxPrecision_def btcToken_def)
  ultimately show ?thesis
    using c v w q by simp
qed

text \<open>
  Claim C9. A request of an authenticated user with a chain whose destination is an
  address of some ECO wallet, on any chain of that wallet's address map, is handed to
  \<open>processInternalTransfer\<close> with the sender, the owner of such a wallet, the currency, the
  chain and the absolute amount, and the handler answers with its response or its error;
  the handler computes no fee, compares no balance, creates no pending transaction and
  queues nothing.
\<close>

theorem internal_address_is_transferred:
  assumes "req_user req = Some userId" and "req_chain req \<noteq> []"
    and "list_ex (\<lambda>w. w_type w = ''ECO'' \<and> hasAddress (req_toAddress req) w) (wallets l)"
  shows "\<exists>rw c. rw \<in> set (wallets l) \<and> w_type rw = ''ECO'' \<and> hasAddress (req_toAddress req) rw
           \<and> c = \<lparr> tr_from = userId, tr_to = w_userId rw, tr_currency = req_currency req,
                    tr_chain = req_chain req, tr_amount = magnitude (req_amount req) \<rparr>
           \<and> fst (withdrawFunds env req l) =
               (case internalTransferFails env c of
                  None \<Rightarrow> Inr (Transferred c)
                | Some msg \<Rightarrow> Inl (handlerError (Error msg)))
           \<and> snd (withdrawFunds env req l) = l\<lparr> internalTransfers := internalTransfers l @ [c] \<rparr>
           \<and> wallets (snd (withdrawFunds env req l)) = wallets l
           \<and> transactions (snd (withdrawFunds env req l)) = transactions l
           \<and> queue (snd (withdrawFunds env req l)) = queue l"
proof -
  from findWalletByAddress_Some [OF assms(3)] obtain rw where
    f: "findWalletByAddress (req_toAddress req) (wallets l) = Some rw"
    and p: "rw \<in> set (wallets l)" "w_type rw = ''ECO''" "hasAddress (req_toAddress req) rw"
    by blast
  let ?c = "\<lparr> tr_from = userId, tr_to = w_userId rw, tr_currency = req_currency req,
               tr_chain = req_chain req, tr_amount = magnitude (req_amount req) \<rparr>"
  have v: "numberValue (mathAbs (req_amount req)) = magnitude (req_amount req)"
    by (simp add: numberValue_def mathAbs_def magnitude_def)
  from assms(1,2) f v show ?thesis
    using p
    by (intro exI [of _ rw] exI [of _ ?c])
      (simp add: withdrawFunds_def processInternalTransfer_def Let_def split: option.splits)
qed

theorem internal_address_is_transferred_witness:
  "req_user toBob = Some ''alice'' \<and> req_chain toBob \<noteq> []
   \<and> list_ex (\<lambda>w. w_type w = ''ECO'' \<and> hasAddress (req_toAddress toBob) w) (wallets demoLedger)
   \<and> fst (withdrawFunds demoServices toBob demoLedger) =
       Inr (Transferred \<lparr> tr_from = ''alice'', tr_to = ''bob'', tr_currency = ''BTC'',
              tr_chain = ''BTC'', tr_amount = 5 / 2 \<rparr>)
   \<and> wallets (snd (withdrawFunds demoServices toBob demoLedger)) = wallets demoLedger
   \<and> queue (snd (withdrawFunds demoServices toBob demoLedger)) = []"
proof -
  have h1: "req_user toBob = Some ''alice''" and h2: "req_chain toBob \<noteq> []"
    by (simp_all add: toBob_def)
  have h3: "list_ex (\<lambda>w. w_type w = ''ECO'' \<and> hasAddress (req_toAddress toBob) w) (wallets demoLedger)"
    by (simp add: toBob_def demoLedger_def aliceWallet_def bobWallet_def hasAddress_def)
  have r1: "fst (withdrawFunds demoServices toBob demoLedger) =
       Inr (Transferred \<lparr> tr_from = ''alice'', tr_to = ''bob'', tr_currency = ''BTC'',
              tr_chain = ''BTC'', tr_amount = 5 / 2 \<rparr>)"
    by (simp add: toBob_def withdrawFunds_def findWalletByAddress_def hasAddress_def
        processInternalTransfer_def demoLedger_def demoServices_def aliceWallet_def
        bobWallet_def numberValue_def mathAbs_def magnitude_def Let_def)
  have r2: "wallets (snd (withdrawFunds demoServices toBob demoLedger)) = wallets demoLedger"
    and r3: "queue (snd (withdrawFunds demoServices toBob demoLedger)) = []"
    by (simp_all add: toBob_def withdrawFunds_def findWalletByAddress_def hasAddress_def
        processInternalTransfer_def demoLedger_def demoServices_def aliceWallet_def
        bobWallet_def numberValue_def mathAbs_def magnitude_def Let_def)
  from internal_address_is_transferred [OF h1 h2 h3, of demoServices] show ?thesis
    by - (intro conjI h1 h2 h3 r1 r2 r3)
qed


section \<open>Properties of the transaction cache\<close>

lemmas cache_eval = fetchAndParseTransactions_def getCachedData_def redis_get_def redis_setex_def
  differenceInMinutes_def cacheKey_def toLowerCase_def parseRawTransactions_def
  CACHE_EXPIRATION_def rawOf_def emptyRedis_def firstFetch_def Let_def

text \<open>
  A fetch that went to the network and succeeded leaves its list in Redis for 30 seconds:
  until then a fetch for the same address and chain is answered from the cache, afterwards
  the network is asked again.
\<close>

lemma redis_after_network_fetch:
  assumes "fo_network_called (fetchAndParseTransactions True addr chn (Returns raw) t0 r)"
    and "fo_result (fetchAndParseTransactions True addr chn (Returns raw) t0 r) = Inr txs"
  shows "fo_redis (fetchAndParseTransactions True addr chn (Returns raw) t0 r)
           = redis_setex r (cacheKey addr chn) CACHE_EXPIRATION
               \<lparr> cd_transactions = txs, cd_timestamp = t0 \<rparr> t0"
  using assms
  by (simp add: fetchAndParseTransactions_def Let_def split: option.splits sum.splits)

lemma getCachedData_after_setex:
  "getCachedData (redis_setex r key CACHE_EXPIRATION \<lparr> cd_transactions = txs, cd_timestamp = t0 \<rparr> t0) key t
     = (if t < t0 + 30000 \<and> differenceInMinutes t t0 < 30 then Some txs else None)"
  by (simp add: getCachedData_def redis_get_def redis_setex_def CACHE_EXPIRATION_def)

lemma cache_hit_within_ttl:
  assumes "fo_network_called (fetchAndParseTransactions True addr chn (Returns raw) t0 r)"
    and "fo_result (fetchAndParseTransactions True addr chn (Returns raw) t0 r) = Inr txs"
    and "t0 \<le> t" and "t < t0 + 30000"
  shows "fetchAndParseTransactions True addr chn net t
           (fo_redis (fetchAndParseTransactions True addr chn (Returns raw) t0 r))
         = \<lparr> fo_result = Inr txs,
             fo_redis = fo_redis (fetchAndParseTransactions True addr chn (Returns raw) t0 r),
             fo_network_called = False \<rparr>"
proof -
  from assms(3,4) have "differenceInMinutes t t0 < 30"
    by (simp add: differenceInMinutes_def Let_def)
  with assms(4) show ?thesis
    unfolding redis_after_network_fetch [OF assms(1,2)]
    by (simp add: fetchAndParseTransactions_def [of True addr chn net] getCachedData_after_setex)
qed

lemma cache_miss_after_ttl:
  assumes "fo_network_called (fetchAndParseTransactions True addr chn (Returns raw) t0 r)"
    and "fo_result (fetchAndParseTransactions True addr chn (Returns raw) t0 r) = Inr txs"
    and "t0 + 30000 \<le> t"
  shows "fo_network_called (fetchAndParseTransactions True addr chn net t
           (fo_redis (fetchAndParseTransactions True addr chn (Returns raw) t0 r)))"
  using assms(3)
  unfolding redis_after_network_fetch [OF assms(1,2)]
  by (simp add: fetchAndParseTransactions_def [of True addr chn net] getCachedData_after_setex
      Let_def split: outcome.splits sum.splits)

subsection \<open>The claims\<close>

text \<open>
  Claim C8 one minute after a successful fetch. The first fetch at time 0 asks the
  network and stores its list with \<open>SETEX\<close> and a time to live of \<open>CACHE_EXPIRATION\<close>,
  that is 30 seconds. A fetch for the same address and chain at 60000 ms, well within 30
  minutes, finds nothing in Redis, asks the network again and returns the new list; a
  fetch at 29999 ms is still answered from the cache.
\<close>

theorem cache_entry_expires_after_30_seconds:
  "map p_hash (projr (fo_result firstFetch)) = [''0x01'']
   \<and> fo_network_called firstFetch
   \<and> fo_network_called (fetchAndParseTransactions True ''0xb'' ''ETH''
         (Returns (Some [rawOf ''0x01'', rawOf ''0x02''])) 60000 (fo_redis firstFetch))
   \<and> map p_hash (projr (fo_result (fetchAndParseTransactions True ''0xb'' ''ETH''
         (Returns (Some [rawOf ''0x01'', rawOf ''0x02''])) 60000 (fo_redis firstFetch))))
       = [''0x01'', ''0x02'']
   \<and> differenceInMinutes 60000 0 < 30
   \<and> \<not> fo_network_called (fetchAndParseTransactions True ''0xb'' ''ETH''
         (Returns (Some [rawOf ''0x01'', rawOf ''0x02''])) 29999 (fo_redis firstFetch))"
  by (simp add: cache_eval)

section \<open>Properties of the node lookup\<close>

lemma listtransactions_recent:
  "set (listtransactions h count 0) = set (take count (rev h))"
  by (simp add: listtransactions_def)

lemma older_not_listed:
  assumes "distinct h" and "tx \<in> set (drop count (rev h))"
  shows "tx \<notin> set (listtransactions h count 0)"
proof -
  from assms(1) have "distinct (take count (rev h) @ drop count (rev h))"
    by (simp only: append_take_drop_id distinct_rev)
  then have "set (take count (rev h)) \<inter> set (drop count (rev h)) = {}"
    by (rule distinct_append [THEN iffD1, THEN conjunct2, THEN conjunct2])
  with assms(2) show ?thesis
    by (auto simp: listtransactions_def)
qed

lemma receiveNo_inj: "inj receiveNo"
  by (rule injI) (simp add: receiveNo_def)

lemma busy_history: "history busyNode = receiveNo 0 # map receiveNo [1..<101]"
  by (simp add: busyNode_def upt_rec [of 0 101])

subsection \<open>The claims\<close>

text \<open>
  Claim C10. When the RPC answers, \<open>getAddressTransactions\<close> returns exactly the entries
  with the queried address among the 100 most recent transactions of the wallet (count
  100, skip 0); in a wallet without repeated entries, an entry older than these 100 is not
  returned, whatever its address.
\<close>

theorem node_lookup_window:
  assumes "rpc_error nd = None"
  shows "getAddressTransactions nd addr =
           Inr (filter (\<lambda>tx. ntx_address tx = Some addr) (listtransactions (history nd) 100 0))
         \<and> listtransactions (history nd) 100 0 = rev (take 100 (rev (history nd)))
         \<and> length (listtransactions (history nd) 100 0) \<le> 100
         \<and> (distinct (history nd) \<and> tx \<in> set (drop 100 (rev (history nd)))
              \<longrightarrow> tx \<notin> set (projr (getAddressTransactions nd addr)))"
proof (intro conjI impI)
  show g: "getAddressTransactions nd addr =
           Inr (filter (\<lambda>tx. ntx_address tx = Some addr) (listtransactions (history nd) 100 0))"
    using assms by (simp add: getAddressTransactions_def walletRpcCall_listtransactions_def)
  show "listtransactions (history nd) 100 0 = rev (take 100 (rev (history nd)))"
    by (simp add: listtransactions_def)
  show "length (listtransactions (history nd) 100 0) \<le> 100"
    by (simp add: listtransactions_def)
  assume "distinct (history nd) \<and> tx \<in> set (drop 100 (rev (history nd)))"
  then have "tx \<notin> set (listtransactions (history nd) 100 0)"
    using older_not_listed by blast
  then show "tx \<notin> set (projr (getAddressTransactions nd addr))"
    unfolding g by simp
qed

theorem node_lookup_window_witness:
  "rpc_error busyNode = None \<and> distinct (history busyNode)
   \<and> ntx_address (receiveNo 0) = Some ''addr1''
   \<and> receiveNo 0 \<in> set (history busyNode)
   \<and> receiveNo 0 \<in> set (drop 100 (rev (history busyNode)))
   \<and> receiveNo 0 \<notin> set (projr (getAddressTransactions busyNode ''addr1''))"
proof -
  have e: "rpc_error busyNode = None"
    by (simp add: busyNode_def)
  have d: "distinct (history busyNode)"
    by (simp add: busyNode_def distinct_map inj_on_subset [OF receiveNo_inj])
  have o: "receiveNo 0 \<in> set (drop 100 (rev (history busyNode)))"
    by (simp add: busy_history)
  have m: "receiveNo 0 \<in> set (history busyNode)"
    by (simp add: busy_history)
  have a: "ntx_address (receiveNo 0) = Some ''addr1''"
    by (simp add: receiveNo_def)
  from node_lookup_window [OF e, where tx = "receiveNo 0" and addr = "''addr1''"] d o
  have "receiveNo 0 \<notin> set (projr (getAddressTransactions busyNode ''addr1''))"
    by blast
  with e d o m a show ?thesis
    by blast
qed


end
